theory Spec2Isabelle
  imports Main "HOL-Library.Word"
begin

section \<open>JavaScript strings\<close>

text \<open>
  A JavaScript string is a sequence of UTF-16 code units. String literals of the source
  are written \<open>js ''...''\<close>.
\<close>

type_synonym jschar = "16 word"
type_synonym jsstring = "jschar list"
type_synonym byte = "8 word"

definition js :: "string \<Rightarrow> jsstring" where
  "js s = map of_char s"

text \<open>
  \<open>String.prototype.trim\<close> removes the code units of ECMAScript's WhiteSpace and
  LineTerminator productions from both ends.
\<close>

definition isWhiteSpace :: "jschar \<Rightarrow> bool" where
  "isWhiteSpace c =
     (c = 0x0009 \<or> c = 0x000A \<or> c = 0x000B \<or> c = 0x000C \<or> c = 0x000D \<or> c = 0x0020 \<or>
      c = 0x00A0 \<or> c = 0x1680 \<or> (0x2000 \<le> c \<and> c \<le> 0x200A) \<or> c = 0x2028 \<or>
      c = 0x2029 \<or> c = 0x202F \<or> c = 0x205F \<or> c = 0x3000 \<or> c = 0xFEFF)"

definition trim :: "jsstring \<Rightarrow> jsstring" where
  "trim s = rev (dropWhile isWhiteSpace (rev (dropWhile isWhiteSpace s)))"

definition startsWith :: "jsstring \<Rightarrow> jsstring \<Rightarrow> bool" where
  "startsWith s p = (take (length p) s = p)"

definition slice_from :: "nat \<Rightarrow> jsstring \<Rightarrow> jsstring" where
  "slice_from n s = drop n s"

text \<open>\<open>s.split('\n')\<close>: the pieces between line feeds; never the empty array.\<close>

fun split_newline :: "jsstring \<Rightarrow> jsstring list" where
  "split_newline [] = [[]]"
| "split_newline (c # cs) =
     (if c = 0x000A then [] # split_newline cs
      else (case split_newline cs of
              [] \<Rightarrow> [[c]]
            | l # ls \<Rightarrow> (c # l) # ls))"

text \<open>The template literal \<open>${n}\<close> of a non-negative integer: its decimal digits.\<close>

fun number_to_string :: "nat \<Rightarrow> jsstring" where
  "number_to_string n =
     (if n < 10 then [of_nat (48 + n)]
      else number_to_string (n div 10) @ [of_nat (48 + n mod 10)])"

declare number_to_string.simps [simp del]

text \<open>
  \<open>String.prototype.toUpperCase\<close>. On a string of ASCII code units it maps \<open>a\<close>..\<open>z\<close>
  to \<open>A\<close>..\<open>Z\<close> and leaves every other unit; on any other string it is the Unicode
  case mapping, which is a parameter of the model (\<open>unicode_upper\<close> below).
\<close>

definition ascii_upper :: "jschar \<Rightarrow> jschar" where
  "ascii_upper c = (if 0x61 \<le> c \<and> c \<le> 0x7A then c - 0x20 else c)"

section \<open>JavaScript values and errors\<close>

text \<open>
  The values \<open>JSON.parse\<close> and \<open>response.json()\<close> produce, and \<open>undefined\<close>, which
  reading an absent property gives. \<open>'n\<close> is the type of numbers (IEEE doubles in
  JavaScript); the model never computes with them, it only copies them and asks the
  platform whether one is truthy.
\<close>

datatype 'n jsval =
    JUndefined
  | JNull
  | JBool bool
  | JNum 'n
  | JStr jsstring
  | JArr "'n jsval list"
  | JObj "(jsstring \<times> 'n jsval) list"

datatype js_error =
    SyntaxError
  | TypeError
  | Error jsstring

text \<open>
  What the JavaScript platform provides and the repository only calls:
  \<^item> \<open>json_parse\<close>: \<open>JSON.parse\<close>; \<open>None\<close> when it throws a SyntaxError;
  \<^item> \<open>unicode_upper\<close>: \<open>toUpperCase\<close> on a string with a code unit outside ASCII;
  \<^item> \<open>num_truthy\<close>: ToBoolean of a number (false for \<open>0\<close>, \<open>-0\<close> and \<open>NaN\<close>);
  \<^item> \<open>gt_zero\<close>: \<open>v > 0\<close> for a value \<open>v\<close> read from the \<open>length\<close> property of a plain
    object, with JavaScript's ToPrimitive and ToNumber coercions, which can throw.
\<close>

record 'n platform =
  json_parse :: "jsstring \<Rightarrow> 'n jsval option"
  unicode_upper :: "jsstring \<Rightarrow> jsstring"
  num_truthy :: "'n \<Rightarrow> bool"
  gt_zero :: "'n jsval \<Rightarrow> js_error + bool"

definition toUpperCase :: "'n platform \<Rightarrow> jsstring \<Rightarrow> jsstring" where
  "toUpperCase P s =
     (if list_all (\<lambda>c. c < 0x80) s then map ascii_upper s else unicode_upper P s)"

text \<open>Sequencing of computations that may throw: the first error wins.\<close>

definition bindE :: "'e + 'a \<Rightarrow> ('a \<Rightarrow> 'e + 'b) \<Rightarrow> 'e + 'b" where
  "bindE m f = (case m of Inl e \<Rightarrow> Inl e | Inr x \<Rightarrow> f x)"

text \<open>ToBoolean, as \<open>if (v)\<close>, \<open>v && ...\<close> and \<open>v || ...\<close> apply it.\<close>

fun truthy :: "'n platform \<Rightarrow> 'n jsval \<Rightarrow> bool" where
  "truthy P JUndefined = False"
| "truthy P JNull = False"
| "truthy P (JBool b) = b"
| "truthy P (JNum n) = num_truthy P n"
| "truthy P (JStr s) = (s \<noteq> [])"
| "truthy P (JArr xs) = True"
| "truthy P (JObj kv) = True"

text \<open>
  \<open>v.k\<close> for a property name \<open>k\<close> that no built-in prototype defines (the source reads
  \<open>choices\<close>, \<open>delta\<close>, \<open>content\<close>, \<open>finish_reason\<close>, \<open>message\<close>, \<open>index\<close>, \<open>usage\<close>,
  \<open>prompt_tokens\<close>, \<open>completion_tokens\<close>, \<open>total_tokens\<close>, \<open>data\<close>, \<open>embedding\<close>; the
  declared shapes below also name \<open>role\<close>):
  a TypeError on \<open>undefined\<close> and \<open>null\<close>, the own property of an object, \<open>undefined\<close>
  on everything else.
\<close>

fun get_prop :: "jsstring \<Rightarrow> 'n jsval \<Rightarrow> js_error + 'n jsval" where
  "get_prop k JUndefined = Inl TypeError"
| "get_prop k JNull = Inl TypeError"
| "get_prop k (JObj kv) = Inr (case map_of kv k of None \<Rightarrow> JUndefined | Some v \<Rightarrow> v)"
| "get_prop k (JBool b) = Inr JUndefined"
| "get_prop k (JNum n) = Inr JUndefined"
| "get_prop k (JStr s) = Inr JUndefined"
| "get_prop k (JArr xs) = Inr JUndefined"

text \<open>\<open>v.length > 0\<close>.\<close>

fun length_gt_zero :: "'n platform \<Rightarrow> 'n jsval \<Rightarrow> js_error + bool" where
  "length_gt_zero P JUndefined = Inl TypeError"
| "length_gt_zero P JNull = Inl TypeError"
| "length_gt_zero P (JArr xs) = Inr (xs \<noteq> [])"
| "length_gt_zero P (JStr s) = Inr (s \<noteq> [])"
| "length_gt_zero P (JObj kv) =
     (case map_of kv (js ''length'') of None \<Rightarrow> Inr False | Some l \<Rightarrow> gt_zero P l)"
| "length_gt_zero P (JBool b) = Inr False"
| "length_gt_zero P (JNum n) = Inr False"

text \<open>\<open>v[0]\<close>.\<close>

fun index0 :: "'n jsval \<Rightarrow> js_error + 'n jsval" where
  "index0 JUndefined = Inl TypeError"
| "index0 JNull = Inl TypeError"
| "index0 (JArr xs) = Inr (case xs of [] \<Rightarrow> JUndefined | x # _ \<Rightarrow> x)"
| "index0 (JStr s) = Inr (case s of [] \<Rightarrow> JUndefined | c # _ \<Rightarrow> JStr [c])"
| "index0 (JObj kv) = Inr (case map_of kv (js ''0'') of None \<Rightarrow> JUndefined | Some v \<Rightarrow> v)"
| "index0 (JBool b) = Inr JUndefined"
| "index0 (JNum n) = Inr JUndefined"

text \<open>
  \<open>v.toUpperCase()\<close>: only a string has the method; on \<open>undefined\<close> and \<open>null\<close> the
  property read throws, on any other value the call of a non-function throws.
\<close>

fun call_toUpperCase :: "'n platform \<Rightarrow> 'n jsval \<Rightarrow> js_error + 'n jsval" where
  "call_toUpperCase P (JStr s) = Inr (JStr (toUpperCase P s))"
| "call_toUpperCase P JUndefined = Inl TypeError"
| "call_toUpperCase P JNull = Inl TypeError"
| "call_toUpperCase P (JBool b) = Inl TypeError"
| "call_toUpperCase P (JNum n) = Inl TypeError"
| "call_toUpperCase P (JArr xs) = Inl TypeError"
| "call_toUpperCase P (JObj kv) = Inl TypeError"

text \<open>\<open>v?.toUpperCase()\<close>: \<open>undefined\<close> when \<open>v\<close> is \<open>undefined\<close> or \<open>null\<close>.\<close>

fun optional_toUpperCase :: "'n platform \<Rightarrow> 'n jsval \<Rightarrow> js_error + 'n jsval" where
  "optional_toUpperCase P JUndefined = Inr JUndefined"
| "optional_toUpperCase P JNull = Inr JUndefined"
| "optional_toUpperCase P v = call_toUpperCase P v"

section \<open>The caller's vocabulary: requests and responses\<close>

text \<open>
  \<open>Part\<close> and \<open>Content\<close> of the request. A part without text (inline data, a function
  call) has \<open>part_text = None\<close>; \<open>role\<close> and \<open>parts\<close> are optional. A string or a bare
  part standing where a \<open>Content\<close> is expected reads as a \<open>Content\<close> with neither field.
\<close>

record part =
  part_text :: "jsstring option"

record content =
  role :: "jsstring option"
  parts :: "part list option"

text \<open>\<open>request.contents\<close>: an array, a string, or a single \<open>Content\<close>.\<close>

datatype contents_union =
    ContentArray "content list"
  | ContentString jsstring
  | ContentSingle content

record request =
  req_model :: jsstring
  req_contents :: contents_union

text \<open>\<open>GenerateContentResponse\<close>, as the source builds it.\<close>

record 'n response_part =
  text_of :: "'n jsval"

record 'n response_content =
  content_role :: jsstring
  content_parts :: "'n response_part list"

record 'n candidate =
  candidate_content :: "'n response_content"
  finishReason :: "'n jsval"
  index :: "'n jsval"

record 'n usage_metadata =
  promptTokenCount :: "'n jsval"
  candidatesTokenCount :: "'n jsval"
  totalTokenCount :: "'n jsval"

record 'n response =
  candidates :: "'n candidate list"
  usageMetadata :: "'n usage_metadata option"

record 'n embedding =
  embedding_values :: "'n jsval"

record 'n embed_response =
  embeddings :: "'n embedding list"

section \<open>The backend's vocabulary: HTTP\<close>

record openai_message =
  message_role :: jsstring
  message_content :: jsstring

text \<open>
  The JSON body of a POST: \<open>{model, messages, stream}\<close> for chat completions,
  \<open>{model, input}\<close> for embeddings. Method and headers are the same constants at every
  call of the source.
\<close>

datatype request_body =
    ChatBody jsstring "openai_message list" bool
  | EmbedBody jsstring jsstring

record http_request =
  url :: jsstring
  body :: request_body

text \<open>
  A \<open>Response\<close> by what the source observes of it: \<open>status\<close>, \<open>statusText\<close>, the text
  \<open>response.text()\<close> resolves to, and the chunks \<open>response.body.getReader()\<close> delivers
  (\<open>None\<close> for a null body). \<open>response.ok\<close> is the Fetch standard's: a status in
  200..299. \<open>response.json()\<close> parses the text.
\<close>

record http_response =
  status :: nat
  statusText :: jsstring
  body_text :: jsstring
  body_stream :: "byte list list option"

definition ok :: "http_response \<Rightarrow> bool" where
  "ok r = (200 \<le> status r \<and> status r \<le> 299)"

definition response_json :: "'n platform \<Rightarrow> http_response \<Rightarrow> js_error + 'n jsval" where
  "response_json P r =
     (case json_parse P (body_text r) of None \<Rightarrow> Inl SyntaxError | Some v \<Rightarrow> Inr v)"

text \<open>
  The network: a backend answers a request from its state \<open>'s\<close>, with a response or a
  rejection of the \<open>fetch\<close> promise. \<open>fetch\<close> records each request it sends.
\<close>

record 's world =
  calls :: "http_request list"
  server :: 's

type_synonym 's backend = "'s \<Rightarrow> http_request \<Rightarrow> (js_error + http_response) \<times> 's"

definition fetch ::
  "'s backend \<Rightarrow> 's world \<Rightarrow> http_request \<Rightarrow> (js_error + http_response) \<times> 's world" where
  "fetch backend w req =
     (case backend (server w) req of
        (r, s') \<Rightarrow> (r, \<lparr>calls = calls w @ [req], server = s'\<rparr>))"

section \<open>OllamaContentGenerator\<close>

record ollama =
  baseUrl :: jsstring
  model :: jsstring

definition constructor_default :: ollama where
  "constructor_default = \<lparr>baseUrl = js ''http://localhost:11434/v1'', model = js ''llama3''\<rparr>"

definition toOpenAIRole :: "jsstring \<Rightarrow> jsstring" where
  "toOpenAIRole r =
     (if r = js ''user'' then js ''user''
      else if r = js ''model'' then js ''assistant''
      else js ''system'')"

fun normalizeContents :: "contents_union \<Rightarrow> content list" where
  "normalizeContents (ContentArray cs) = cs"
| "normalizeContents (ContentString s) =
     [\<lparr>role = Some (js ''user''), parts = Some [\<lparr>part_text = Some s\<rparr>]\<rparr>]"
| "normalizeContents (ContentSingle c) = [c]"

text \<open>
  \<open>toOpenAIMessages\<close>: per content, \<open>content.parts || []\<close>, each part's text or
  \<open>''\<close> joined without a separator, and the role of \<open>content.role || 'user'\<close>.
\<close>

definition toOpenAIMessages :: "content list \<Rightarrow> openai_message list" where
  "toOpenAIMessages contents =
     map (\<lambda>c.
       let ps = (case parts c of None \<Rightarrow> [] | Some ps \<Rightarrow> ps);
           txt = concat (map (\<lambda>p. case part_text p of
                                      None \<Rightarrow> []
                                    | Some t \<Rightarrow> if t \<noteq> [] then t else []) ps)
       in \<lparr>message_role =
             toOpenAIRole (case role c of
                             None \<Rightarrow> js ''user''
                           | Some r \<Rightarrow> if r \<noteq> [] then r else js ''user''),
           message_content = txt\<rparr>) contents"

subsection \<open>generateContent\<close>

text \<open>\<open>xs.map(f)\<close> where \<open>f\<close> may throw: the first exception ends the map.\<close>

fun mapE :: "('a \<Rightarrow> 'e + 'b) \<Rightarrow> 'a list \<Rightarrow> 'e + 'b list" where
  "mapE f [] = Inr []"
| "mapE f (x # xs) = bindE (f x) (\<lambda>y. bindE (mapE f xs) (\<lambda>ys. Inr (y # ys)))"

text \<open>\<open>v.map(f)\<close>: only an array has the method.\<close>

fun array_map :: "('n jsval \<Rightarrow> js_error + 'b) \<Rightarrow> 'n jsval \<Rightarrow> js_error + 'b list" where
  "array_map f (JArr xs) = mapE f xs"
| "array_map f JUndefined = Inl TypeError"
| "array_map f JNull = Inl TypeError"
| "array_map f (JBool b) = Inl TypeError"
| "array_map f (JNum n) = Inl TypeError"
| "array_map f (JStr s) = Inl TypeError"
| "array_map f (JObj kv) = Inl TypeError"

text \<open>The arrow function mapped over \<open>data.choices\<close>.\<close>

definition choice_to_candidate :: "'n platform \<Rightarrow> 'n jsval \<Rightarrow> js_error + 'n candidate" where
  "choice_to_candidate P choice =
     bindE (get_prop (js ''message'') choice) (\<lambda>message.
     bindE (get_prop (js ''content'') message) (\<lambda>txt.
     bindE (get_prop (js ''finish_reason'') choice) (\<lambda>finish_reason.
     bindE (call_toUpperCase P finish_reason) (\<lambda>upper.
     bindE (get_prop (js ''index'') choice) (\<lambda>idx.
     Inr \<lparr>candidate_content =
            \<lparr>content_role = js ''model'', content_parts = [\<lparr>text_of = txt\<rparr>]\<rparr>,
          finishReason = upper,
          index = idx\<rparr>)))))"

text \<open>The object literal \<open>result\<close> built from the parsed body \<open>data\<close>.\<close>

definition completion_to_response :: "'n platform \<Rightarrow> 'n jsval \<Rightarrow> js_error + 'n response" where
  "completion_to_response P data =
     bindE (get_prop (js ''choices'') data) (\<lambda>choices.
     bindE (array_map (choice_to_candidate P) choices) (\<lambda>cands.
     bindE (get_prop (js ''usage'') data) (\<lambda>usage.
     bindE (get_prop (js ''prompt_tokens'') usage) (\<lambda>prompt_tokens.
     bindE (get_prop (js ''completion_tokens'') usage) (\<lambda>completion_tokens.
     bindE (get_prop (js ''total_tokens'') usage) (\<lambda>total_tokens.
     Inr \<lparr>candidates = cands,
          usageMetadata = Some \<lparr>promptTokenCount = prompt_tokens,
                                candidatesTokenCount = completion_tokens,
                                totalTokenCount = total_tokens\<rparr>\<rparr>))))))"

text \<open>
  \<open>generateContent(request, _userPromptId)\<close>; the second argument is not used. The
  result is the promise's outcome (\<open>Inl\<close>: rejected with that error) and the world after
  the call.
\<close>

definition generateContent ::
  "'n platform \<Rightarrow> 's backend \<Rightarrow> ollama \<Rightarrow> 's world \<Rightarrow> request
     \<Rightarrow> (js_error + 'n response) \<times> 's world" where
  "generateContent P backend self w request =
     (let contents = normalizeContents (req_contents request);
          messages = toOpenAIMessages contents;
          m = (if startsWith (req_model request) (js ''gemini'')
               then model self else req_model request)
      in case fetch backend w
                \<lparr>url = baseUrl self @ js ''/chat/completions'',
                 body = ChatBody m messages False\<rparr> of
           (Inl e, w') \<Rightarrow> (Inl e, w')
         | (Inr response, w') \<Rightarrow>
             if \<not> ok response
             then (Inl (Error (js ''Ollama API error: '' @ number_to_string (status response)
                               @ js '' - '' @ body_text response)), w')
             else (bindE (response_json P response) (completion_to_response P), w'))"

subsection \<open>generateContentStream\<close>

text \<open>
  \<open>TextDecoder.decode(value, {stream: true})\<close> runs the decoder's state machine over
  the bytes of \<open>value\<close> and keeps its state for the next call. The machine (one step per
  byte: the next state and the code units it emits) is a parameter, \<open>'d\<close> its state.
\<close>

type_synonym 'd text_decoder = "'d \<Rightarrow> byte \<Rightarrow> 'd \<times> jsstring"

fun decode :: "'d text_decoder \<Rightarrow> 'd \<Rightarrow> byte list \<Rightarrow> 'd \<times> jsstring" where
  "decode dec d [] = (d, [])"
| "decode dec d (b # bs) =
     (case dec d b of (d1, out1) \<Rightarrow>
        (case decode dec d1 bs of (d2, out2) \<Rightarrow> (d2, out1 @ out2)))"

text \<open>
  The chunk built for a frame: one candidate, role \<open>model\<close>, one part, index \<open>0\<close>.
\<close>

definition stream_chunk :: "'n::zero jsval \<Rightarrow> 'n jsval \<Rightarrow> 'n response" where
  "stream_chunk txt finish =
     \<lparr>candidates =
        [\<lparr>candidate_content =
             \<lparr>content_role = js ''model'', content_parts = [\<lparr>text_of = txt\<rparr>]\<rparr>,
          finishReason = finish,
          index = JNum 0\<rparr>],
      usageMetadata = None\<rparr>"

text \<open>
  The body of the \<open>try\<close> block after \<open>JSON.parse\<close>: the chunks it yields, or the exception
  it throws.
\<close>

definition frame_chunks :: "'n::zero platform \<Rightarrow> 'n jsval \<Rightarrow> js_error + 'n response list" where
  "frame_chunks P data =
     bindE (get_prop (js ''choices'') data) (\<lambda>choices.
     if \<not> truthy P choices then Inr [] else
     bindE (length_gt_zero P choices) (\<lambda>nonempty.
     if \<not> nonempty then Inr [] else
     bindE (index0 choices) (\<lambda>choice0.
     bindE (get_prop (js ''delta'') choice0) (\<lambda>delta.
     bindE (get_prop (js ''content'') delta) (\<lambda>txt.
     if \<not> truthy P txt then Inr [] else
     bindE (get_prop (js ''finish_reason'') choice0) (\<lambda>finish_reason.
     bindE (optional_toUpperCase P finish_reason) (\<lambda>upper.
     Inr [stream_chunk txt (if truthy P upper then upper else JUndefined)])))))))"

definition try_block :: "'n::zero platform \<Rightarrow> jsstring \<Rightarrow> js_error + 'n response list" where
  "try_block P trimmed =
     (case json_parse P (slice_from 6 trimmed) of
        None \<Rightarrow> Inl SyntaxError
      | Some data \<Rightarrow> frame_chunks P data)"

text \<open>The body of \<open>for (const line of lines)\<close>: the chunks one line yields.\<close>

definition process_line :: "'n::zero platform \<Rightarrow> jsstring \<Rightarrow> 'n response list" where
  "process_line P line =
     (let trimmed = trim line
      in if trimmed = [] \<or> trimmed = js ''data: [DONE]'' then []
         else if startsWith trimmed (js ''data: '')
         then (case try_block P trimmed of Inl e \<Rightarrow> [] | Inr chunks \<Rightarrow> chunks)
         else [])"

text \<open>
  One turn of the \<open>while\<close> loop on a chunk \<open>value\<close>: the complete lines, and the new
  buffer (\<open>lines.pop() || ''\<close>) with the decoder's state.
\<close>

definition read_step ::
  "'d text_decoder \<Rightarrow> jsstring \<times> 'd \<Rightarrow> byte list \<Rightarrow> jsstring list \<times> (jsstring \<times> 'd)" where
  "read_step dec st v =
     (case st of (buffer, d) \<Rightarrow>
        (case decode dec d v of (d', txt) \<Rightarrow>
           (let buffer1 = buffer @ txt;
                lines = split_newline buffer1;
                buffer2 = (if lines = [] then [] else last lines)
            in (butlast lines, (buffer2, d')))))"

text \<open>
  The generator: the chunks it yields over the successive reads; the loop ends when the
  reader reports \<open>done\<close>, and what is left in the buffer is dropped. The reads are the
  chunks the reader delivers before \<open>done\<close>; a read that rejects is not modelled.
\<close>

fun stream_loop ::
  "'n::zero platform \<Rightarrow> 'd text_decoder \<Rightarrow> jsstring \<times> 'd \<Rightarrow> byte list list \<Rightarrow> 'n response list" where
  "stream_loop P dec st [] = []"
| "stream_loop P dec st (v # reads) =
     (case read_step dec st v of (lines, st') \<Rightarrow>
        concat (map (process_line P) lines) @ stream_loop P dec st' reads)"

text \<open>
  \<open>generateContentStream(request, _userPromptId)\<close>: \<open>Inl\<close> when the promise rejects
  (no generator exists then), else the elements of the generator. \<open>d0\<close> is the state of
  a new \<open>TextDecoder\<close>.
\<close>

definition generateContentStream ::
  "'n::zero platform \<Rightarrow> 'd text_decoder \<Rightarrow> 'd \<Rightarrow> 's backend \<Rightarrow> ollama \<Rightarrow> 's world \<Rightarrow> request
     \<Rightarrow> (js_error + 'n response list) \<times> 's world" where
  "generateContentStream P dec d0 backend self w request =
     (let contents = normalizeContents (req_contents request);
          messages = toOpenAIMessages contents;
          m = (if startsWith (req_model request) (js ''gemini'')
               then model self else req_model request)
      in case fetch backend w
                \<lparr>url = baseUrl self @ js ''/chat/completions'',
                 body = ChatBody m messages True\<rparr> of
           (Inl e, w') \<Rightarrow> (Inl e, w')
         | (Inr response, w') \<Rightarrow>
             if \<not> ok response
             then (Inl (Error (js ''Ollama API error: '' @ number_to_string (status response)
                               @ js '' - '' @ body_text response)), w')
             else (case body_stream response of
                     None \<Rightarrow> (Inl (Error (js ''No response body from Ollama'')), w')
                   | Some reads \<Rightarrow> (Inr (stream_loop P dec ([], d0) reads), w')))"

subsection \<open>embedContent\<close>

text \<open>The two nested loops that push every truthy \<open>part.text\<close> onto \<open>texts\<close>.\<close>

fun part_texts :: "part list \<Rightarrow> jsstring list" where
  "part_texts [] = []"
| "part_texts (p # ps) =
     (case part_text p of
        None \<Rightarrow> part_texts ps
      | Some t \<Rightarrow> if t \<noteq> [] then t # part_texts ps else part_texts ps)"

fun flatten_texts :: "content list \<Rightarrow> jsstring list" where
  "flatten_texts [] = []"
| "flatten_texts (c # cs) =
     (case parts c of
        None \<Rightarrow> flatten_texts cs
      | Some ps \<Rightarrow> part_texts ps @ flatten_texts cs)"

text \<open>
  What one parsed embeddings response adds to \<open>embeddings\<close>:
  \<open>if (data.data && data.data.length > 0) embeddings.push({values: data.data[0].embedding})\<close>.
\<close>

definition embedding_of :: "'n platform \<Rightarrow> 'n jsval \<Rightarrow> js_error + 'n embedding list" where
  "embedding_of P data =
     bindE (get_prop (js ''data'') data) (\<lambda>d.
     if \<not> truthy P d then Inr [] else
     bindE (length_gt_zero P d) (\<lambda>nonempty.
     if \<not> nonempty then Inr [] else
     bindE (index0 d) (\<lambda>first.
     bindE (get_prop (js ''embedding'') first) (\<lambda>e.
     Inr [\<lparr>embedding_values = e\<rparr>]))))"

text \<open>\<open>for (const input of texts)\<close>, with the embeddings collected so far.\<close>

fun embed_loop ::
  "'n platform \<Rightarrow> 's backend \<Rightarrow> ollama \<Rightarrow> jsstring \<Rightarrow> 's world \<Rightarrow> jsstring list
     \<Rightarrow> 'n embedding list \<Rightarrow> (js_error + 'n embedding list) \<times> 's world" where
  "embed_loop P backend self m w [] embs = (Inr embs, w)"
| "embed_loop P backend self m w (input # rest) embs =
     (case fetch backend w
             \<lparr>url = baseUrl self @ js ''/embeddings'', body = EmbedBody m input\<rparr> of
        (Inl e, w') \<Rightarrow> (Inl e, w')
      | (Inr response, w') \<Rightarrow>
          if \<not> ok response
          then (Inl (Error (js ''Ollama Embedding Error: '' @ statusText response)), w')
          else (case bindE (response_json P response) (embedding_of P) of
                  Inl e \<Rightarrow> (Inl e, w')
                | Inr new \<Rightarrow> embed_loop P backend self m w' rest (embs @ new)))"

definition embedContent ::
  "'n platform \<Rightarrow> 's backend \<Rightarrow> ollama \<Rightarrow> 's world \<Rightarrow> request
     \<Rightarrow> (js_error + 'n embed_response) \<times> 's world" where
  "embedContent P backend self w request =
     (let m = (if startsWith (req_model request) (js ''gemini'')
               then model self else req_model request);
          contents = normalizeContents (req_contents request);
          texts = flatten_texts contents
      in case embed_loop P backend self m w texts [] of
           (Inl e, w') \<Rightarrow> (Inl e, w')
         | (Inr embs, w') \<Rightarrow> (Inr \<lparr>embeddings = embs\<rparr>, w'))"

section \<open>The backend's declared shapes\<close>

text \<open>
  The source casts what it parsed to its interfaces \<open>OpenAIStreamChunk\<close> and
  \<open>OpenAICompletionResponse\<close>. The records below are those interfaces, restricted to
  the fields the source reads, and the predicates say when a parsed value has the
  declared shape. An optional or nullable string is \<open>None\<close> when the value is
  \<open>undefined\<close> or \<open>null\<close>.
\<close>

fun optional_string :: "'n jsval \<Rightarrow> jsstring option \<Rightarrow> bool" where
  "optional_string v None = (v = JUndefined \<or> v = JNull)"
| "optional_string v (Some s) = (v = JStr s)"

record stream_choice =
  delta_content :: "jsstring option"
  stream_finish_reason :: "jsstring option"

definition is_stream_choice :: "'n jsval \<Rightarrow> stream_choice \<Rightarrow> bool" where
  "is_stream_choice v c =
     (case get_prop (js ''delta'') v of
        Inl e \<Rightarrow> False
      | Inr d \<Rightarrow>
          (case get_prop (js ''content'') d of
             Inl e \<Rightarrow> False
           | Inr x \<Rightarrow> optional_string x (delta_content c)) \<and>
          (case get_prop (js ''finish_reason'') v of
             Inl e \<Rightarrow> False
           | Inr y \<Rightarrow> optional_string y (stream_finish_reason c)))"

record 'n completion_choice =
  choice_index :: 'n
  choice_message :: openai_message
  choice_finish_reason :: jsstring

record 'n completion_usage =
  prompt_tokens :: 'n
  completion_tokens :: 'n
  total_tokens :: 'n

record 'n completion =
  completion_choices :: "'n completion_choice list"
  usage :: "'n completion_usage"

definition is_completion_choice :: "'n jsval \<Rightarrow> 'n completion_choice \<Rightarrow> bool" where
  "is_completion_choice v c =
     (get_prop (js ''index'') v = Inr (JNum (choice_index c)) \<and>
      (case get_prop (js ''message'') v of
         Inl e \<Rightarrow> False
       | Inr m \<Rightarrow>
           get_prop (js ''role'') m = Inr (JStr (message_role (choice_message c))) \<and>
           get_prop (js ''content'') m = Inr (JStr (message_content (choice_message c)))) \<and>
      get_prop (js ''finish_reason'') v = Inr (JStr (choice_finish_reason c)))"

definition is_completion :: "'n jsval \<Rightarrow> 'n completion \<Rightarrow> bool" where
  "is_completion data c =
     ((case get_prop (js ''choices'') data of
         Inr (JArr vs) \<Rightarrow> list_all2 is_completion_choice vs (completion_choices c)
       | _ \<Rightarrow> False) \<and>
      (case get_prop (js ''usage'') data of
         Inl e \<Rightarrow> False
       | Inr u \<Rightarrow>
           get_prop (js ''prompt_tokens'') u = Inr (JNum (prompt_tokens (usage c))) \<and>
           get_prop (js ''completion_tokens'') u = Inr (JNum (completion_tokens (usage c))) \<and>
           get_prop (js ''total_tokens'') u = Inr (JNum (total_tokens (usage c)))))"

text \<open>
  What a backend answers to a list of requests sent one after the other, from state
  \<open>s\<close>.
\<close>

fun replies :: "'s backend \<Rightarrow> 's \<Rightarrow> http_request list \<Rightarrow> (js_error + http_response) list" where
  "replies backend s [] = []"
| "replies backend s (req # reqs) =
     (case backend s req of (r, s') \<Rightarrow> r # replies backend s' reqs)"

section \<open>Vocabulary of the statements\<close>

text \<open>The requests the three operations send, as the source builds them.\<close>

abbreviation (input) chat_request :: "ollama \<Rightarrow> request \<Rightarrow> bool \<Rightarrow> http_request" where
  "chat_request self request stream \<equiv>
     \<lparr>url = baseUrl self @ js ''/chat/completions'',
      body = ChatBody
               (if startsWith (req_model request) (js ''gemini'')
                then model self else req_model request)
               (toOpenAIMessages (normalizeContents (req_contents request)))
               stream\<rparr>"

abbreviation (input) embed_request :: "ollama \<Rightarrow> jsstring \<Rightarrow> jsstring \<Rightarrow> http_request" where
  "embed_request self m input \<equiv>
     \<lparr>url = baseUrl self @ js ''/embeddings'', body = EmbedBody m input\<rparr>"

text \<open>
  What one reply of the embeddings endpoint adds to the result, when the loop gets past
  it: nothing for a rejected fetch or a body that throws, else what \<open>embedding_of\<close> gives.
\<close>

definition reply_embeddings :: "'n platform \<Rightarrow> js_error + http_response \<Rightarrow> 'n embedding list" where
  "reply_embeddings P reply =
     (case reply of
        Inl e \<Rightarrow> []
      | Inr r \<Rightarrow>
          (case bindE (response_json P r) (embedding_of P) of
             Inl e \<Rightarrow> []
           | Inr new \<Rightarrow> new))"

text \<open>The code units \<open>0\<close>..\<open>9\<close>.\<close>

definition is_digit :: "jschar \<Rightarrow> bool" where
  "is_digit c = (0x30 \<le> c \<and> c \<le> 0x39)"

section \<open>A concrete platform and backend for the examples\<close>

text \<open>
  The examples run on ASCII text: every byte below 128 decodes to the code unit of the
  same number, as in UTF-8. \<open>example_parse\<close> is \<open>JSON.parse\<close> on the texts the examples
  use, and rejects every other text; numbers are integers.
\<close>

definition ascii_bytes :: "string \<Rightarrow> byte list" where
  "ascii_bytes s = map of_char s"

definition ascii_decoder :: "unit text_decoder" where
  "ascii_decoder d b = (d, [ucast b])"

definition example_frame :: "int jsval \<Rightarrow> int jsval \<Rightarrow> int jsval" where
  "example_frame delta finish =
     JObj [(js ''choices'',
            JArr [JObj [(js ''index'', JNum 0), (js ''delta'', delta),
                        (js ''finish_reason'', finish)]])]"

definition example_choice :: "int \<Rightarrow> string \<Rightarrow> string \<Rightarrow> int jsval" where
  "example_choice i txt finish =
     JObj [(js ''index'', JNum i),
           (js ''message'', JObj [(js ''role'', JStr (js ''assistant'')),
                                  (js ''content'', JStr (js txt))]),
           (js ''finish_reason'', JStr (js finish))]"

definition example_parse :: "jsstring \<Rightarrow> int jsval option" where
  "example_parse s =
     (if s = js ''{\"choices\":[{\"index\":0,\"delta\":{\"content\":\"Hi\"},\"finish_reason\":null}]}''
      then Some (example_frame (JObj [(js ''content'', JStr (js ''Hi''))]) JNull)
      else if s = js ''{\"choices\":[{\"index\":0,\"delta\":{\"content\":\"!\"},\"finish_reason\":\"stop\"}]}''
      then Some (example_frame (JObj [(js ''content'', JStr (js ''!''))]) (JStr (js ''stop'')))
      else if s = js ''{\"choices\":[{\"index\":0,\"delta\":{\"content\":\"Hi\"},\"finish_reason\":\"\"}]}''
      then Some (example_frame (JObj [(js ''content'', JStr (js ''Hi''))]) (JStr []))
      else if s = js ''{\"choices\":[{\"index\":0,\"delta\":{},\"finish_reason\":\"stop\"}]}''
      then Some (example_frame (JObj []) (JStr (js ''stop'')))
      else if s = js ''{\"choices\":[]}''
      then Some (JObj [(js ''choices'', JArr [])])
      else if s = js ''{\"id\":\"x\"}''
      then Some (JObj [(js ''id'', JStr (js ''x''))])
      else if s = js ''{\"choices\":[{\"index\":0,\"message\":{\"role\":\"assistant\",\"content\":\"A\"},\"finish_reason\":\"stop\"},{\"index\":1,\"message\":{\"role\":\"assistant\",\"content\":\"B\"},\"finish_reason\":\"length\"}],\"usage\":{\"prompt_tokens\":3,\"completion_tokens\":2,\"total_tokens\":5}}''
      then Some (JObj [(js ''choices'',
                        JArr [example_choice 0 ''A'' ''stop'', example_choice 1 ''B'' ''length'']),
                       (js ''usage'',
                        JObj [(js ''prompt_tokens'', JNum 3), (js ''completion_tokens'', JNum 2),
                              (js ''total_tokens'', JNum 5)])])
      else if s = js ''{\"data\":[{\"embedding\":[1,2]}]}''
      then Some (JObj [(js ''data'', JArr [JObj [(js ''embedding'', JArr [JNum 1, JNum 2])]])])
      else if s = js ''{\"data\":[{\"embedding\":[3,4]}]}''
      then Some (JObj [(js ''data'', JArr [JObj [(js ''embedding'', JArr [JNum 3, JNum 4])]])])
      else if s = js ''{}''
      then Some (JObj [])
      else None)"

definition example_platform :: "int platform" where
  "example_platform =
     \<lparr>json_parse = example_parse,
      unicode_upper = (\<lambda>s. s),
      num_truthy = (\<lambda>n. n \<noteq> 0),
      gt_zero = (\<lambda>v. case v of JNum n \<Rightarrow> Inr (0 < n) | JBool b \<Rightarrow> Inr b | _ \<Rightarrow> Inr False)\<rparr>"

text \<open>
  A backend that answers its \<open>n\<close>-th request with the \<open>n\<close>-th response of a list,
  whatever the request, and rejects the requests after the last.
\<close>

definition canned :: "http_response list \<Rightarrow> nat backend" where
  "canned rs n req = (if n < length rs then Inr (rs ! n) else Inl TypeError, Suc n)"

definition example_response :: "nat \<Rightarrow> string \<Rightarrow> string \<Rightarrow> http_response" where
  "example_response code reason txt =
     \<lparr>status = code, statusText = js reason, body_text = js txt,
      body_stream = Some [ascii_bytes txt]\<rparr>"

definition example_request :: "string \<Rightarrow> string list \<Rightarrow> request" where
  "example_request m texts =
     \<lparr>req_model = js m,
      req_contents = ContentArray
        [\<lparr>role = Some (js ''user''),
          parts = Some (map (\<lambda>t. \<lparr>part_text = Some (js t)\<rparr>) texts)\<rparr>]\<rparr>"

section \<open>Line splitting and the decode buffer\<close>

lemma split_newline_nonempty: "split_newline s \<noteq> []"
  by (induction s) (auto split: list.splits)

lemma split_newline_append:
  "split_newline (s @ t) = butlast (split_newline s) @ split_newline (last (split_newline s) @ t)"
proof (induction s)
  case Nil
  show ?case by simp
next
  case (Cons c cs)
  obtain l ls where sp: "split_newline cs = l # ls"
    using split_newline_nonempty [of cs] by (cases "split_newline cs") auto
  show ?case
  proof (cases "c = 0x000A")
    case True
    with Cons sp show ?thesis by simp
  next
    case False
    show ?thesis
    proof (cases ls)
      case Nil
      with Cons sp False show ?thesis by simp
    next
      case (Cons l' ls')
      with Cons.IH sp False show ?thesis by simp
    qed
  qed
qed

lemma join_split_newline:
  "concat (map (\<lambda>l. l @ [0x000A]) (butlast (split_newline s))) @ last (split_newline s) = s"
proof (induction s)
  case Nil
  show ?case by simp
next
  case (Cons c cs)
  obtain l ls where sp: "split_newline cs = l # ls"
    using split_newline_nonempty [of cs] by (cases "split_newline cs") auto
  with Cons show ?case by (cases ls) auto
qed

lemma split_newline_no_newline: "0x000A \<notin> set s \<Longrightarrow> split_newline s = [s]"
  by (induction s) auto

lemma last_split_newline_no_newline: "0x000A \<notin> set (last (split_newline s))"
proof (induction s)
  case Nil
  show ?case by simp
next
  case (Cons c cs)
  obtain l ls where sp: "split_newline cs = l # ls"
    using split_newline_nonempty [of cs] by (cases "split_newline cs") auto
  with Cons show ?case by (cases ls) auto
qed

lemma decode_append:
  "decode dec d (a @ b) =
     (case decode dec d a of (d1, t1) \<Rightarrow>
        (case decode dec d1 b of (d2, t2) \<Rightarrow> (d2, t1 @ t2)))"
  by (induction a arbitrary: d) (auto split: prod.splits)

text \<open>
  The generator yields what the complete lines of the whole decoded body yield, in
  order: the buffer never holds a line feed, so each line is processed exactly once.
\<close>

lemma stream_loop_lines:
  "0x000A \<notin> set buffer \<Longrightarrow>
   stream_loop P dec (buffer, d) reads =
     concat (map (process_line P)
       (butlast (split_newline (buffer @ snd (decode dec d (concat reads))))))"
proof (induction reads arbitrary: buffer d)
  case Nil
  then show ?case by (simp add: split_newline_no_newline)
next
  case (Cons v reads)
  obtain d1 t1 where v: "decode dec d v = (d1, t1)" by (cases "decode dec d v")
  obtain d2 t2 where r: "decode dec d1 (concat reads) = (d2, t2)"
    by (cases "decode dec d1 (concat reads)")
  have "split_newline (buffer @ t1 @ t2) =
          butlast (split_newline (buffer @ t1)) @
          split_newline (last (split_newline (buffer @ t1)) @ t2)"
    using split_newline_append [of "buffer @ t1" t2] by simp
  then have "butlast (split_newline (buffer @ t1 @ t2)) =
          butlast (split_newline (buffer @ t1)) @
          butlast (split_newline (last (split_newline (buffer @ t1)) @ t2))"
    by (simp add: butlast_append split_newline_nonempty)
  then show ?case
    using Cons.IH [of "last (split_newline (buffer @ t1))" d1] v r
      last_split_newline_no_newline [of "buffer @ t1"]
    by (simp add: read_step_def Let_def decode_append split_newline_nonempty)
qed

section \<open>Evaluating the examples\<close>

lemmas example_defs = js_def ascii_bytes_def ascii_decoder_def read_step_def process_line_def
  trim_def isWhiteSpace_def startsWith_def slice_from_def try_block_def example_platform_def
  example_parse_def example_frame_def frame_chunks_def bindE_def stream_chunk_def
  toUpperCase_def ascii_upper_def Let_def

section \<open>The claims\<close>

text \<open>
  C1. The chunks \<open>generateContentStream\<close>'s decoding loop yields are the same whether
  the body arrives as the reads \<open>reads\<close>, cut at any byte boundaries, or as the one
  read \<open>concat reads\<close>. And no code unit is lost in a turn of the loop: the complete
  lines, each with its line feed, followed by the new buffer, are the old buffer
  followed by the text decoded from the read.
\<close>

theorem stream_decoding_chunk_boundary_invariant:
  "stream_loop P dec ([], d0) reads = stream_loop P dec ([], d0) [concat reads] \<and>
   (case read_step dec (buffer, d) v of
      (lines, (buffer', d')) \<Rightarrow>
        concat (map (\<lambda>l. l @ [0x000A]) lines) @ buffer' = buffer @ snd (decode dec d v))"
proof
  have "stream_loop P dec ([], d0) reads =
          concat (map (process_line P)
            (butlast (split_newline ([] @ snd (decode dec d0 (concat reads))))))"
    by (rule stream_loop_lines) simp
  moreover have "stream_loop P dec ([], d0) [concat reads] =
          concat (map (process_line P)
            (butlast (split_newline ([] @ snd (decode dec d0 (concat [concat reads]))))))"
    by (rule stream_loop_lines) simp
  ultimately show "stream_loop P dec ([], d0) reads = stream_loop P dec ([], d0) [concat reads]"
    by simp
  obtain d1 t1 where v: "decode dec d v = (d1, t1)" by (cases "decode dec d v")
  then show "case read_step dec (buffer, d) v of
      (lines, (buffer', d')) \<Rightarrow>
        concat (map (\<lambda>l. l @ [0x000A]) lines) @ buffer' = buffer @ snd (decode dec d v)"
    by (simp add: read_step_def Let_def split_newline_nonempty join_split_newline)
qed

text \<open>
  The body \<open>data: {...}\n\ndata: [DONE]\n\<close> delivered in two reads, the first ending
  inside \<open>data: \<close>, yields the one chunk \<open>Hi\<close>.
\<close>

theorem stream_decoding_chunk_boundary_invariant_witness:
  "stream_loop example_platform ascii_decoder ([], ())
     [ascii_bytes ''dat'',
      ascii_bytes ''a: {\"choices\":[{\"index\":0,\"delta\":{\"content\":\"Hi\"},\"finish_reason\":null}]}''
        @ [0x0A, 0x0A] @ ascii_bytes ''data: [DONE]'' @ [0x0A]]
   = [stream_chunk (JStr (js ''Hi'')) JUndefined]"
  using stream_decoding_chunk_boundary_invariant
    [of example_platform ascii_decoder "()"
      "[ascii_bytes ''dat'',
        ascii_bytes ''a: {\"choices\":[{\"index\":0,\"delta\":{\"content\":\"Hi\"},\"finish_reason\":null}]}''
          @ [0x0A, 0x0A] @ ascii_bytes ''data: [DONE]'' @ [0x0A]]" "[]" "()" "[]"]
  by (simp add: example_defs)

text \<open>A line that trims to \<open>data: \<close> and a payload other than \<open>[DONE]\<close> enters the \<open>try\<close> block.\<close>

lemma data_line:
  assumes "trim line = js ''data: '' @ payload" and "payload \<noteq> js ''[DONE]''"
  shows "process_line P line = (case try_block P (trim line) of Inl e \<Rightarrow> [] | Inr chunks \<Rightarrow> chunks)"
    and "slice_from 6 (trim line) = payload"
  using assms by (simp_all add: process_line_def startsWith_def slice_from_def js_def)

text \<open>
  C2 (as amended). For a line whose payload parses to a frame with at least one choice,
  the first of the declared shape \<open>c\<close>: the decoder looks at that choice only (the
  result does not depend on \<open>rest\<close>). If its delta carries non-empty text, the line
  yields exactly one chunk with a single candidate: role \<open>model\<close>, one part holding the
  delta text, index \<open>0\<close>, and \<open>finishReason\<close> the upper-cased \<open>finish_reason\<close> when that
  is a non-empty string, \<open>undefined\<close> when \<open>finish_reason\<close> is absent, null or upper-cases
  to the empty string. If the delta carries no text or the empty text, the line yields
  nothing.
\<close>

theorem stream_frame_first_choice:
  assumes line: "trim line = js ''data: '' @ payload"
      and not_done: "payload \<noteq> js ''[DONE]''"
      and parsed: "json_parse P payload = Some data"
      and choices: "get_prop (js ''choices'') data = Inr (JArr (v # rest))"
      and shape: "is_stream_choice v c"
  shows "process_line P line =
     (case delta_content c of
        None \<Rightarrow> []
      | Some t \<Rightarrow>
          if t = [] then []
          else [\<lparr>candidates =
                   [\<lparr>candidate_content =
                        \<lparr>content_role = js ''model'', content_parts = [\<lparr>text_of = JStr t\<rparr>]\<rparr>,
                     finishReason =
                       (case stream_finish_reason c of
                          None \<Rightarrow> JUndefined
                        | Some r \<Rightarrow>
                            if toUpperCase P r = [] then JUndefined
                            else JStr (toUpperCase P r)),
                     index = JNum 0\<rparr>],
                 usageMetadata = None\<rparr>])"
proof -
  obtain d x y where d: "get_prop (js ''delta'') v = Inr d"
    and x: "get_prop (js ''content'') d = Inr x" "optional_string x (delta_content c)"
    and y: "get_prop (js ''finish_reason'') v = Inr y" "optional_string y (stream_finish_reason c)"
    using shape by (auto simp: is_stream_choice_def split: sum.splits)
  have tb: "try_block P (trim line) = frame_chunks P data"
    using data_line(2) [OF line not_done] parsed by (simp add: try_block_def)
  have "frame_chunks P data =
     Inr (case delta_content c of
        None \<Rightarrow> []
      | Some t \<Rightarrow>
          if t = [] then []
          else [stream_chunk (JStr t)
                  (case stream_finish_reason c of
                          None \<Rightarrow> JUndefined
                        | Some r \<Rightarrow>
                            if toUpperCase P r = [] then JUndefined
                            else JStr (toUpperCase P r))])"
  proof (cases "delta_content c")
    case None
    with x have "\<not> truthy P x" by auto
    with None choices d x show ?thesis by (simp add: frame_chunks_def bindE_def)
  next
    case (Some t)
    with x have xt: "x = JStr t" by simp
    show ?thesis
    proof (cases "stream_finish_reason c")
      case None
      with y have "optional_toUpperCase P y = Inr JUndefined" by auto
      with None Some xt choices d x y show ?thesis by (simp add: frame_chunks_def bindE_def)
    next
      case (Some r)
      with y have "optional_toUpperCase P y = Inr (JStr (toUpperCase P r))" by simp
      with Some \<open>delta_content c = Some t\<close> xt choices d x y show ?thesis
        by (simp add: frame_chunks_def bindE_def)
    qed
  qed
  moreover have "process_line P line =
      (case frame_chunks P data of Inl e \<Rightarrow> [] | Inr chunks \<Rightarrow> chunks)"
    using data_line(1) [OF line not_done, where P = P] tb by simp
  ultimately show ?thesis
    by (simp add: stream_chunk_def split: option.splits)
qed

text \<open>A frame with text \<open>!\<close> and \<open>finish_reason\<close> \<open>stop\<close> yields one chunk with \<open>STOP\<close>.\<close>

theorem stream_frame_first_choice_witness:
  "process_line example_platform
     (js ''data: {\"choices\":[{\"index\":0,\"delta\":{\"content\":\"!\"},\"finish_reason\":\"stop\"}]}'')
   = [stream_chunk (JStr (js ''!'')) (JStr (js ''STOP''))]"
proof -
  let ?payload = "js ''{\"choices\":[{\"index\":0,\"delta\":{\"content\":\"!\"},\"finish_reason\":\"stop\"}]}''"
  let ?v = "JObj [(js ''index'', JNum 0), (js ''delta'', JObj [(js ''content'', JStr (js ''!''))]),
                  (js ''finish_reason'', JStr (js ''stop''))] :: int jsval"
  have 1: "trim (js ''data: {\"choices\":[{\"index\":0,\"delta\":{\"content\":\"!\"},\"finish_reason\":\"stop\"}]}'')
             = js ''data: '' @ ?payload"
    by (simp add: example_defs)
  have 2: "?payload \<noteq> js ''[DONE]''"
    by (simp add: example_defs)
  have 3: "json_parse example_platform ?payload =
             Some (example_frame (JObj [(js ''content'', JStr (js ''!''))]) (JStr (js ''stop'')))"
    by (simp add: example_defs)
  have 4: "get_prop (js ''choices'')
             (example_frame (JObj [(js ''content'', JStr (js ''!''))]) (JStr (js ''stop'')))
           = Inr (JArr (?v # []))"
    by (simp add: example_defs)
  have 5: "is_stream_choice ?v \<lparr>delta_content = Some (js ''!''), stream_finish_reason = Some (js ''stop'')\<rparr>"
    by (simp add: is_stream_choice_def example_defs)
  show ?thesis
    using stream_frame_first_choice [OF 1 2 3 4 5]
    by (simp add: example_defs)
qed

text \<open>
  The claim as stated (\<open>finishReason\<close> is the upper-cased \<open>finish_reason\<close> whenever it is
  present) fails on a frame whose \<open>finish_reason\<close> is the empty string: the source's
  \<open>|| undefined\<close> turns the empty upper-cased string into \<open>undefined\<close>.
\<close>

theorem stream_frame_empty_finish_reason_counterexample:
  "process_line example_platform
     (js ''data: {\"choices\":[{\"index\":0,\"delta\":{\"content\":\"Hi\"},\"finish_reason\":\"\"}]}'')
   = [stream_chunk (JStr (js ''Hi'')) JUndefined] \<and>
   stream_chunk (JStr (js ''Hi'')) JUndefined \<noteq>
   stream_chunk (JStr (js ''Hi'')) (JStr (toUpperCase example_platform (js '''')) :: int jsval)"
  by (simp add: example_defs)

lemma split_newline_line:
  "0x000A \<notin> set l \<Longrightarrow> split_newline (l @ 0x000A # t) = l # split_newline t"
proof (induction l)
  case Nil
  show ?case by simp
next
  case (Cons c l)
  then show ?case by (simp split: list.splits)
qed

lemma split_newline_join:
  "\<forall>l\<in>set ls. 0x000A \<notin> set l \<Longrightarrow>
   split_newline (concat (map (\<lambda>l. l @ [0x000A]) ls) @ t) = ls @ split_newline t"
  by (induction ls) (simp_all add: split_newline_line)

text \<open>
  When the decoded body is the lines \<open>ls\<close>, each ended by a line feed, and an unfinished
  tail, the generator yields what the lines yield, one after the other.
\<close>

lemma stream_loop_of_lines:
  assumes "\<forall>l\<in>set ls. 0x000A \<notin> set l" and "0x000A \<notin> set tail"
      and "snd (decode dec d0 (concat reads)) = concat (map (\<lambda>l. l @ [0x000A]) ls) @ tail"
  shows "stream_loop P dec ([], d0) reads = concat (map (process_line P) ls)"
proof -
  have "stream_loop P dec ([], d0) reads =
          concat (map (process_line P)
            (butlast (split_newline ([] @ snd (decode dec d0 (concat reads))))))"
    by (rule stream_loop_lines) simp
  with assms show ?thesis
    by (simp add: split_newline_join split_newline_no_newline)
qed

text \<open>
  C3. A line that trims to the empty string or to \<open>data: [DONE]\<close>, or that starts with
  \<open>data: \<close> and whose remainder \<open>JSON.parse\<close> rejects, yields nothing; the SyntaxError of
  the rejected remainder is thrown inside the \<open>try\<close> block and caught there. The
  generator goes on: when the body is the lines \<open>before\<close>, the skipped line and the lines
  \<open>after\<close>, it yields what \<open>before\<close> yields and then what \<open>after\<close> yields.
\<close>

theorem skipped_line_does_not_end_the_stream:
  assumes skip: "trim line = [] \<or> trim line = js ''data: [DONE]'' \<or>
                 (startsWith (trim line) (js ''data: '') \<and>
                  json_parse P (slice_from 6 (trim line)) = None)"
      and lines: "\<forall>l\<in>set (before @ line # after). 0x000A \<notin> set l"
      and tail: "0x000A \<notin> set tail"
      and body: "snd (decode dec d0 (concat reads)) =
                   concat (map (\<lambda>l. l @ [0x000A]) (before @ line # after)) @ tail"
  shows "process_line P line = [] \<and>
         (json_parse P (slice_from 6 (trim line)) = None \<longrightarrow>
            try_block P (trim line) = Inl SyntaxError) \<and>
         stream_loop P dec ([], d0) reads =
           concat (map (process_line P) before) @ concat (map (process_line P) after)"
proof -
  have 1: "process_line P line = []"
    using skip by (auto simp: process_line_def try_block_def Let_def)
  have 2: "json_parse P (slice_from 6 (trim line)) = None \<longrightarrow>
            try_block P (trim line) = Inl SyntaxError"
    by (simp add: try_block_def)
  have "stream_loop P dec ([], d0) reads =
          concat (map (process_line P) (before @ line # after))"
    using lines tail body by (rule stream_loop_of_lines)
  with 1 2 show ?thesis by simp
qed

text \<open>A malformed line followed by a valid one: the valid one still yields its chunk.\<close>

theorem skipped_line_does_not_end_the_stream_witness:
  "process_line example_platform (js ''data: {oops'') = [] \<and>
   stream_loop example_platform ascii_decoder ([], ())
     [ascii_bytes ''data: {oops'' @ [0x0A] @ ascii_bytes ''data: {\"choices\":[{\"index\":0,\"delta\":{\"content\":\"Hi\"},\"finish_reason\":null}]}'' @ [0x0A]]
   = [stream_chunk (JStr (js ''Hi'')) JUndefined]"
proof -
  let ?line = "js ''data: {oops''"
  let ?after = "[js ''data: {\"choices\":[{\"index\":0,\"delta\":{\"content\":\"Hi\"},\"finish_reason\":null}]}'']"
  let ?reads = "[ascii_bytes ''data: {oops'' @ [0x0A] @ ascii_bytes ''data: {\"choices\":[{\"index\":0,\"delta\":{\"content\":\"Hi\"},\"finish_reason\":null}]}'' @ [0x0A]]"
  have 1: "trim ?line = [] \<or> trim ?line = js ''data: [DONE]'' \<or>
           (startsWith (trim ?line) (js ''data: '') \<and>
            json_parse example_platform (slice_from 6 (trim ?line)) = None)"
    by (simp add: example_defs)
  have 2: "\<forall>l\<in>set ([] @ ?line # ?after). 0x000A \<notin> set l"
    by (simp add: js_def)
  have 3: "0x000A \<notin> set ([] :: jsstring)"
    by simp
  have 4: "snd (decode ascii_decoder () (concat ?reads)) =
             concat (map (\<lambda>l. l @ [0x000A]) ([] @ ?line # ?after)) @ []"
    by (simp add: example_defs)
  show ?thesis
    using skipped_line_does_not_end_the_stream [OF 1 2 3 4]
    by (simp add: example_defs)
qed

text \<open>
  C10. A line whose payload parses to a frame with \<open>choices\<close> absent or the empty array
  throws nothing, not even inside the \<open>try\<close> block, yields no chunk, and the generator
  goes on with the next line. The first choice is read only from a truthy \<open>choices\<close>, and
  \<open>choices[0]\<close> on a truthy value never throws.
\<close>

theorem frame_without_choices_yields_nothing:
  assumes line: "trim line = js ''data: '' @ payload"
      and not_done: "payload \<noteq> js ''[DONE]''"
      and parsed: "json_parse P payload = Some data"
      and absent: "get_prop (js ''choices'') data = Inr JUndefined \<or>
                   get_prop (js ''choices'') data = Inr (JArr [])"
      and lines: "\<forall>l\<in>set (before @ line # after). 0x000A \<notin> set l"
      and tail: "0x000A \<notin> set tail"
      and body: "snd (decode dec d0 (concat reads)) =
                   concat (map (\<lambda>l. l @ [0x000A]) (before @ line # after)) @ tail"
  shows "try_block P (trim line) = Inr [] \<and>
         process_line P line = [] \<and>
         stream_loop P dec ([], d0) reads =
           concat (map (process_line P) before) @ concat (map (process_line P) after) \<and>
         (truthy P choices \<longrightarrow> (\<exists>choice0. index0 choices = Inr choice0))"
proof -
  have "frame_chunks P data = Inr []"
    using absent by (auto simp: frame_chunks_def bindE_def)
  then have 1: "try_block P (trim line) = Inr []"
    using data_line(2) [OF line not_done] parsed by (simp add: try_block_def)
  then have 2: "process_line P line = []"
    using data_line(1) [OF line not_done, where P = P] by simp
  have "stream_loop P dec ([], d0) reads =
          concat (map (process_line P) (before @ line # after))"
    using lines tail body by (rule stream_loop_of_lines)
  with 2 have 3: "stream_loop P dec ([], d0) reads =
           concat (map (process_line P) before) @ concat (map (process_line P) after)"
    by simp
  have 4: "truthy P choices \<longrightarrow> (\<exists>choice0. index0 choices = Inr choice0)"
    by (cases choices) simp_all
  from 1 2 3 4 show ?thesis by simp
qed

text \<open>A frame with an empty \<open>choices\<close> array followed by a valid frame.\<close>

theorem frame_without_choices_yields_nothing_witness:
  "try_block example_platform (js ''data: {\"choices\":[]}'') = Inr [] \<and>
   stream_loop example_platform ascii_decoder ([], ())
     [ascii_bytes ''data: {\"choices\":[]}'' @ [0x0A] @ ascii_bytes ''data: {\"choices\":[{\"index\":0,\"delta\":{\"content\":\"Hi\"},\"finish_reason\":null}]}'' @ [0x0A]]
   = [stream_chunk (JStr (js ''Hi'')) JUndefined] \<and>
   index0 (JArr [JNull :: int jsval]) = Inr JNull"
proof -
  let ?line = "js ''data: {\"choices\":[]}''"
  let ?after = "[js ''data: {\"choices\":[{\"index\":0,\"delta\":{\"content\":\"Hi\"},\"finish_reason\":null}]}'']"
  let ?reads = "[ascii_bytes ''data: {\"choices\":[]}'' @ [0x0A] @ ascii_bytes ''data: {\"choices\":[{\"index\":0,\"delta\":{\"content\":\"Hi\"},\"finish_reason\":null}]}'' @ [0x0A]]"
  have 1: "trim ?line = js ''data: '' @ js ''{\"choices\":[]}''"
    by (simp add: example_defs)
  have 2: "js ''{\"choices\":[]}'' \<noteq> js ''[DONE]''"
    by (simp add: js_def)
  have 3: "json_parse example_platform (js ''{\"choices\":[]}'') =
             Some (JObj [(js ''choices'', JArr [])])"
    by (simp add: example_defs)
  have 4: "get_prop (js ''choices'') (JObj [(js ''choices'', JArr [])] :: int jsval) = Inr JUndefined \<or>
           get_prop (js ''choices'') (JObj [(js ''choices'', JArr [])] :: int jsval) = Inr (JArr [])"
    by simp
  have 5: "\<forall>l\<in>set ([] @ ?line # ?after). 0x000A \<notin> set l"
    by (simp add: js_def)
  have 6: "0x000A \<notin> set ([] :: jsstring)"
    by simp
  have 7: "snd (decode ascii_decoder () (concat ?reads)) =
             concat (map (\<lambda>l. l @ [0x000A]) ([] @ ?line # ?after)) @ []"
    by (simp add: example_defs)
  show ?thesis
    using frame_without_choices_yields_nothing
      [OF 1 2 3 4 5 6 7, where choices = "JArr [JNull]"]
    by (simp add: example_defs)
qed

text \<open>
  C8 (as amended). \<open>toOpenAIMessages\<close> derives one message per turn, in order. Its role
  is \<open>user\<close> for a turn whose role is absent, empty or \<open>user\<close>, \<open>assistant\<close> for \<open>model\<close>,
  and \<open>system\<close> for any other role; its content is the concatenation, in order and
  without separator, of the texts of the parts that carry one (a part without text adds
  nothing, a turn without parts gives the empty string). \<open>toOpenAIRole\<close> itself is total
  on strings: \<open>user\<close> to \<open>user\<close>, \<open>model\<close> to \<open>assistant\<close>, anything else to \<open>system\<close>.
\<close>

theorem toOpenAIMessages_role_and_content:
  "length (toOpenAIMessages cs) = length cs \<and>
   (\<forall>i<length cs.
      toOpenAIMessages cs ! i =
        \<lparr>message_role =
           (case role (cs ! i) of
              None \<Rightarrow> js ''user''
            | Some r \<Rightarrow>
                if r = [] \<or> r = js ''user'' then js ''user''
                else if r = js ''model'' then js ''assistant''
                else js ''system''),
         message_content =
           concat (map (\<lambda>p. case part_text p of None \<Rightarrow> [] | Some t \<Rightarrow> t)
                       (case parts (cs ! i) of None \<Rightarrow> [] | Some ps \<Rightarrow> ps))\<rparr>) \<and>
   toOpenAIRole r =
     (if r = js ''user'' then js ''user''
      else if r = js ''model'' then js ''assistant''
      else js ''system'')"
proof -
  have eq: "(\<lambda>p. case part_text p of None \<Rightarrow> [] | Some t \<Rightarrow> if t \<noteq> [] then t else []) =
            (\<lambda>p. case part_text p of None \<Rightarrow> [] | Some t \<Rightarrow> t)"
    by (auto split: option.splits)
  show ?thesis
    by (auto simp: toOpenAIMessages_def toOpenAIRole_def Let_def eq split: option.splits)
qed

text \<open>
  The turn \<open>[{text: A}, {non-text}, {text: B}]\<close> of role \<open>user\<close> flattens to \<open>AB\<close>; a turn
  of role \<open>tool\<close> without parts becomes an empty \<open>system\<close> message.
\<close>

theorem toOpenAIMessages_role_and_content_witness:
  "toOpenAIMessages
     [\<lparr>role = Some (js ''user''), parts = Some [\<lparr>part_text = Some (js ''A'')\<rparr>, \<lparr>part_text = None\<rparr>,
                                               \<lparr>part_text = Some (js ''B'')\<rparr>]\<rparr>,
      \<lparr>role = Some (js ''model''), parts = Some []\<rparr>,
      \<lparr>role = Some (js ''tool''), parts = None\<rparr>] ! 0
   = \<lparr>message_role = js ''user'', message_content = js ''AB''\<rparr> \<and>
   toOpenAIMessages
     [\<lparr>role = Some (js ''user''), parts = Some [\<lparr>part_text = Some (js ''A'')\<rparr>, \<lparr>part_text = None\<rparr>,
                                               \<lparr>part_text = Some (js ''B'')\<rparr>]\<rparr>,
      \<lparr>role = Some (js ''model''), parts = Some []\<rparr>,
      \<lparr>role = Some (js ''tool''), parts = None\<rparr>] ! 2
   = \<lparr>message_role = js ''system'', message_content = []\<rparr>"
  using toOpenAIMessages_role_and_content
    [of "[\<lparr>role = Some (js ''user''), parts = Some [\<lparr>part_text = Some (js ''A'')\<rparr>, \<lparr>part_text = None\<rparr>,
                                               \<lparr>part_text = Some (js ''B'')\<rparr>]\<rparr>,
      \<lparr>role = Some (js ''model''), parts = Some []\<rparr>,
      \<lparr>role = Some (js ''tool''), parts = None\<rparr>]" "[]"]
  by (simp add: js_def)

text \<open>
  The claim as stated (an absent role maps to \<open>system\<close>) fails: the source passes
  \<open>content.role || 'user'\<close> to \<open>toOpenAIRole\<close>, so a turn without role becomes a \<open>user\<close>
  message.
\<close>

theorem absent_role_counterexample:
  "toOpenAIMessages [\<lparr>role = None, parts = Some [\<lparr>part_text = Some (js ''hi'')\<rparr>]\<rparr>]
   = [\<lparr>message_role = js ''user'', message_content = js ''hi''\<rparr>] \<and>
   js ''user'' \<noteq> js ''system''"
  by (simp add: toOpenAIMessages_def toOpenAIRole_def js_def)

lemma startsWith_iff: "startsWith s p = (\<exists>rest. s = p @ rest)"
proof
  assume "startsWith s p"
  then have "s = p @ drop (length p) s"
    by (metis startsWith_def append_take_drop_id)
  then show "\<exists>rest. s = p @ rest" ..
next
  assume "\<exists>rest. s = p @ rest"
  then show "startsWith s p" by (auto simp: startsWith_def)
qed

text \<open>
  C9. The one request \<open>generateContent\<close> sends, and the one \<open>generateContentStream\<close>
  sends, name as model the configured default \<open>this.model\<close> when the requested name
  begins with \<open>gemini\<close>, and the requested name itself otherwise.
\<close>

theorem effective_model_sent:
  "calls (snd (generateContent P backend self w request)) =
     calls w @
     [\<lparr>url = baseUrl self @ js ''/chat/completions'',
       body = ChatBody
                (if \<exists>rest. req_model request = js ''gemini'' @ rest
                 then model self else req_model request)
                (toOpenAIMessages (normalizeContents (req_contents request)))
                False\<rparr>] \<and>
   calls (snd (generateContentStream P dec d0 backend self w request)) =
     calls w @
     [\<lparr>url = baseUrl self @ js ''/chat/completions'',
       body = ChatBody
                (if \<exists>rest. req_model request = js ''gemini'' @ rest
                 then model self else req_model request)
                (toOpenAIMessages (normalizeContents (req_contents request)))
                True\<rparr>]"
proof -
  have g: "startsWith (req_model request) (js ''gemini'') =
           (\<exists>rest. req_model request = js ''gemini'' @ rest)"
    by (rule startsWith_iff)
  show ?thesis
    unfolding generateContent_def generateContentStream_def fetch_def Let_def g
    by (auto split: prod.splits sum.splits option.splits)
qed

text \<open>\<open>gemini-2.5-pro\<close> is replaced by the default \<open>llama3\<close>; \<open>mistral\<close> is sent as it is.\<close>

theorem effective_model_sent_witness:
  "calls (snd (generateContent example_platform (canned []) constructor_default
                 \<lparr>calls = [], server = 0\<rparr> (example_request ''gemini-2.5-pro'' [''hi'']))) =
     [\<lparr>url = js ''http://localhost:11434/v1/chat/completions'',
       body = ChatBody (js ''llama3'')
                [\<lparr>message_role = js ''user'', message_content = js ''hi''\<rparr>] False\<rparr>] \<and>
   calls (snd (generateContentStream example_platform ascii_decoder () (canned []) constructor_default
                 \<lparr>calls = [], server = 0\<rparr> (example_request ''mistral'' [''hi'']))) =
     [\<lparr>url = js ''http://localhost:11434/v1/chat/completions'',
       body = ChatBody (js ''mistral'')
                [\<lparr>message_role = js ''user'', message_content = js ''hi''\<rparr>] True\<rparr>]"
proof -
  have 1: "\<exists>rest. req_model (example_request ''gemini-2.5-pro'' [''hi'']) = js ''gemini'' @ rest"
    by (simp add: example_request_def js_def)
  have 2: "\<not> (\<exists>rest. req_model (example_request ''mistral'' [''hi'']) = js ''gemini'' @ rest)"
    by (simp add: example_request_def js_def)
  have 3: "toOpenAIMessages (normalizeContents (req_contents (example_request m [''hi''])))
           = [\<lparr>message_role = js ''user'', message_content = js ''hi''\<rparr>]" for m
    by (simp add: example_request_def toOpenAIMessages_def toOpenAIRole_def js_def)
  show ?thesis
    using effective_model_sent
        [of example_platform "canned []" constructor_default "\<lparr>calls = [], server = 0\<rparr>"
          "example_request ''gemini-2.5-pro'' [''hi'']" ascii_decoder "()"]
      effective_model_sent
        [of example_platform "canned []" constructor_default "\<lparr>calls = [], server = 0\<rparr>"
          "example_request ''mistral'' [''hi'']" ascii_decoder "()"]
    by (simp add: 1 2 3 constructor_default_def) (simp add: example_request_def js_def)
qed

section \<open>Error messages\<close>

lemma digit_unat: "r < 10 \<Longrightarrow> unat (48 + of_nat r :: jschar) = 48 + r"
proof -
  assume r: "r < 10"
  have "unat (of_nat (48 + r) :: jschar) = (48 + r) mod 2 ^ LENGTH(16)"
    by (rule unat_of_nat)
  with r show ?thesis by simp
qed

lemma digit_inj:
  assumes "a < 10" and "b < 10" and "(of_nat (48 + a) :: jschar) = of_nat (48 + b)"
  shows "a = b"
proof -
  have "unat (48 + of_nat a :: jschar) = unat (48 + of_nat b :: jschar)"
    using assms(3) by simp
  then show ?thesis using assms(1,2) by (simp add: digit_unat)
qed

lemma digit_is_digit: "r < 10 \<Longrightarrow> is_digit (48 + of_nat r)"
  by (simp add: is_digit_def word_le_nat_alt digit_unat)

lemma number_to_string_digits: "\<forall>c\<in>set (number_to_string n). is_digit c"
proof (induction n rule: number_to_string.induct)
  case (1 n)
  show ?case
  proof (cases "n < 10")
    case True
    then show ?thesis
      by (subst number_to_string.simps) (simp add: digit_is_digit)
  next
    case False
    have "n mod 10 < 10" by simp
    with False 1 show ?thesis
      by (subst number_to_string.simps) (simp add: digit_is_digit)
  qed
qed

lemma number_to_string_nonempty: "number_to_string n \<noteq> []"
  by (subst number_to_string.simps) simp

lemma number_to_string_inj: "number_to_string a = number_to_string b \<Longrightarrow> a = b"
proof (induction a arbitrary: b rule: number_to_string.induct)
  case (1 a)
  show ?case
  proof (cases "a < 10")
    case a: True
    show ?thesis
    proof (cases "b < 10")
      case True
      with a "1.prems" show ?thesis
        by (simp add: number_to_string.simps [of a] number_to_string.simps [of b] digit_inj)
    next
      case False
      with a "1.prems" number_to_string_nonempty [of "b div 10"] show ?thesis
        by (simp add: number_to_string.simps [of a] number_to_string.simps [of b])
    qed
  next
    case a: False
    show ?thesis
    proof (cases "b < 10")
      case True
      with a "1.prems" number_to_string_nonempty [of "a div 10"] show ?thesis
        by (simp add: number_to_string.simps [of a] number_to_string.simps [of b])
    next
      case False
      with a "1.prems" have eq: "number_to_string (a div 10) = number_to_string (b div 10)"
        and d: "(of_nat (48 + a mod 10) :: jschar) = of_nat (48 + b mod 10)"
        by (simp_all add: number_to_string.simps [of a] number_to_string.simps [of b])
      have "a div 10 = b div 10" using "1.IH" [OF a eq] .
      moreover have "a mod 10 = b mod 10" by (rule digit_inj [OF _ _ d]) simp_all
      ultimately show ?thesis by (metis div_mult_mod_eq)
    qed
  qed
qed

text \<open>The message of the chat-completions error determines the status and the body.\<close>

lemma api_error_message_inj:
  assumes "js ''Ollama API error: '' @ number_to_string n @ js '' - '' @ b =
           js ''Ollama API error: '' @ number_to_string n' @ js '' - '' @ b'"
  shows "n = n' \<and> b = b'"
proof -
  have sp: "\<not> is_digit 0x20" by (simp add: is_digit_def)
  have tw: "takeWhile is_digit (number_to_string k @ js '' - '' @ t) = number_to_string k" for k t
    using number_to_string_digits [of k] sp by (simp add: js_def)
  from assms have eq: "number_to_string n @ js '' - '' @ b = number_to_string n' @ js '' - '' @ b'"
    by simp
  then have "takeWhile is_digit (number_to_string n @ js '' - '' @ b) =
             takeWhile is_digit (number_to_string n' @ js '' - '' @ b')"
    by simp
  then have s: "number_to_string n = number_to_string n'" by (simp only: tw)
  with eq have "b = b'" by simp
  with s show ?thesis by (simp add: number_to_string_inj)
qed

text \<open>
  C5. When the chat-completions endpoint answers the request of \<open>generateContent\<close> with
  a status outside 200..299, \<open>generateContent\<close> rejects with an error whose message is
  \<open>Ollama API error: \<close>, the status in decimal, \<open> - \<close> and the raw body text. When it
  answers the request of \<open>generateContentStream\<close> so, \<open>generateContentStream\<close> rejects
  with the message of the same form before a generator exists, so no element is
  produced. Each holds whatever the endpoint answers to the other request. Status and
  body can both be read back from the message: no other pair gives the same message.
\<close>

theorem chat_http_error:
  "(backend (server w) (chat_request self request False) = (Inr r, s) \<and>
    (status r < 200 \<or> 299 < status r) \<longrightarrow>
      fst (generateContent P backend self w request) =
        Inl (Error (js ''Ollama API error: '' @ number_to_string (status r) @ js '' - ''
                      @ body_text r))) \<and>
   (backend (server w) (chat_request self request True) = (Inr r', s') \<and>
    (status r' < 200 \<or> 299 < status r') \<longrightarrow>
      fst (generateContentStream P dec d0 backend self w request) =
        Inl (Error (js ''Ollama API error: '' @ number_to_string (status r') @ js '' - ''
                      @ body_text r'))) \<and>
   (js ''Ollama API error: '' @ number_to_string n @ js '' - '' @ b =
    js ''Ollama API error: '' @ number_to_string n' @ js '' - '' @ b'
      \<longrightarrow> n = n' \<and> b = b')"
proof (intro conjI impI)
  assume "backend (server w) (chat_request self request False) = (Inr r, s) \<and>
          (status r < 200 \<or> 299 < status r)"
  then show "fst (generateContent P backend self w request) =
        Inl (Error (js ''Ollama API error: '' @ number_to_string (status r) @ js '' - ''
                      @ body_text r))"
    by (auto simp: generateContent_def fetch_def ok_def Let_def)
next
  assume "backend (server w) (chat_request self request True) = (Inr r', s') \<and>
          (status r' < 200 \<or> 299 < status r')"
  then show "fst (generateContentStream P dec d0 backend self w request) =
        Inl (Error (js ''Ollama API error: '' @ number_to_string (status r') @ js '' - ''
                      @ body_text r'))"
    by (auto simp: generateContentStream_def fetch_def ok_def Let_def)
next
  assume "js ''Ollama API error: '' @ number_to_string n @ js '' - '' @ b =
          js ''Ollama API error: '' @ number_to_string n' @ js '' - '' @ b'"
  then have "n = n' \<and> b = b'" by (rule api_error_message_inj)
  then show "n = n'" and "b = b'" by simp_all
qed

text \<open>
  Status 500 with body \<open>overloaded\<close>, from a backend that answers so to the request
  without streaming only, and from one that answers so to the streaming request only.
\<close>

theorem chat_http_error_witness:
  "fst (generateContent example_platform
          (\<lambda>n req. (Inr (if body req = ChatBody (js ''llama3'')
                                        [\<lparr>message_role = js ''user'', message_content = js ''hi''\<rparr>]
                                        False
                           then example_response 500 ''Internal Server Error'' ''overloaded''
                           else example_response 200 ''OK'' ''{}''), Suc n))
          constructor_default \<lparr>calls = [], server = 0\<rparr> (example_request ''llama3'' [''hi'']))
     = Inl (Error (js ''Ollama API error: 500 - overloaded'')) \<and>
   fst (generateContentStream example_platform ascii_decoder ()
          (\<lambda>n req. (Inr (if body req = ChatBody (js ''llama3'')
                                        [\<lparr>message_role = js ''user'', message_content = js ''hi''\<rparr>]
                                        True
                           then example_response 500 ''Internal Server Error'' ''overloaded''
                           else example_response 200 ''OK'' ''{}''), Suc n))
          constructor_default \<lparr>calls = [], server = 0\<rparr> (example_request ''llama3'' [''hi'']))
     = Inl (Error (js ''Ollama API error: 500 - overloaded''))"
proof -
  let ?r = "example_response 500 ''Internal Server Error'' ''overloaded''"
  let ?msgs = "[\<lparr>message_role = js ''user'', message_content = js ''hi''\<rparr>]"
  let ?b1 = "\<lambda>(n :: nat) req. (Inr (if body req = ChatBody (js ''llama3'') ?msgs False
                           then ?r else example_response 200 ''OK'' ''{}'') :: js_error + http_response, Suc n)"
  let ?b2 = "\<lambda>(n :: nat) req. (Inr (if body req = ChatBody (js ''llama3'') ?msgs True
                           then ?r else example_response 200 ''OK'' ''{}'') :: js_error + http_response, Suc n)"
  let ?w = "\<lparr>calls = [], server = 0 :: nat\<rparr>"
  let ?request = "example_request ''llama3'' [''hi'']"
  have req: "body (chat_request constructor_default ?request stream) =
               ChatBody (js ''llama3'') ?msgs stream" for stream
    by (simp add: example_request_def toOpenAIMessages_def toOpenAIRole_def startsWith_def js_def)
  have 1: "?b1 (server ?w) (chat_request constructor_default ?request False) = (Inr ?r, Suc 0) \<and>
           (status ?r < 200 \<or> 299 < status ?r)"
    using req [of False] by (simp add: example_response_def)
  have 2: "?b2 (server ?w) (chat_request constructor_default ?request True) = (Inr ?r, Suc 0) \<and>
           (status ?r < 200 \<or> 299 < status ?r)"
    using req [of True] by (simp add: example_response_def)
  have 3: "js ''Ollama API error: '' @ number_to_string (status ?r) @ js '' - '' @ body_text ?r
           = js ''Ollama API error: 500 - overloaded''"
    by (simp add: number_to_string.simps example_response_def js_def)
  have a: "fst (generateContent example_platform ?b1 constructor_default ?w ?request) =
        Inl (Error (js ''Ollama API error: '' @ number_to_string (status ?r) @ js '' - ''
                      @ body_text ?r))"
    by (rule mp [OF conjunct1 [OF chat_http_error
      [where backend = ?b1 and w = ?w and self = constructor_default and request = ?request
         and r = ?r and s = "Suc 0" and P = example_platform]] 1])
  have b: "fst (generateContentStream example_platform ascii_decoder () ?b2 constructor_default ?w ?request) =
        Inl (Error (js ''Ollama API error: '' @ number_to_string (status ?r) @ js '' - ''
                      @ body_text ?r))"
    by (rule mp [OF conjunct1 [OF conjunct2 [OF chat_http_error
      [where backend = ?b2 and w = ?w and self = constructor_default and request = ?request
         and r' = ?r and s' = "Suc 0" and P = example_platform and dec = ascii_decoder
         and ?d0.0 = "()"]]] 2])
  from a b show ?thesis by (simp only: 3)
qed

section \<open>Reshaping a completion\<close>

lemma choice_to_candidate_typed:
  "is_completion_choice v ch \<Longrightarrow> choice_to_candidate P v = Inr
           \<lparr>candidate_content =
              \<lparr>content_role = js ''model'',
               content_parts = [\<lparr>text_of = JStr (message_content (choice_message ch))\<rparr>]\<rparr>,
            finishReason = JStr (toUpperCase P (choice_finish_reason ch)),
            index = JNum (choice_index ch)\<rparr>"
  by (auto simp: is_completion_choice_def choice_to_candidate_def bindE_def
           split: sum.splits)

lemma mapE_choices:
  "list_all2 is_completion_choice vs chs \<Longrightarrow>
   mapE (choice_to_candidate P) vs = Inr (map (\<lambda>ch.
           \<lparr>candidate_content =
              \<lparr>content_role = js ''model'',
               content_parts = [\<lparr>text_of = JStr (message_content (choice_message ch))\<rparr>]\<rparr>,
            finishReason = JStr (toUpperCase P (choice_finish_reason ch)),
            index = JNum (choice_index ch)\<rparr>) chs)"
  by (induction vs chs rule: list_all2_induct)
     (simp_all add: choice_to_candidate_typed bindE_def)

text \<open>
  C4. When the chat-completions endpoint answers with a status in 200..299 and a body
  that parses to a completion of the declared shape \<open>c\<close>, \<open>generateContent\<close> resolves
  to a response with as many candidates as \<open>c\<close> has choices, in the same order: candidate
  \<open>i\<close> has role \<open>model\<close>, one part holding the message content of choice \<open>i\<close>, the
  upper-cased \<open>finish_reason\<close> of choice \<open>i\<close> as \<open>finishReason\<close>, and the index of choice
  \<open>i\<close>; \<open>usageMetadata\<close> holds \<open>prompt_tokens\<close>, \<open>completion_tokens\<close> and \<open>total_tokens\<close>.
\<close>

theorem generateContent_maps_completion:
  assumes reply: "backend (server w) (chat_request self request False) = (Inr r, s)"
      and success: "200 \<le> status r \<and> status r \<le> 299"
      and parsed: "json_parse P (body_text r) = Some data"
      and shape: "is_completion data c"
  shows "\<exists>result.
           fst (generateContent P backend self w request) = Inr result \<and>
           length (candidates result) = length (completion_choices c) \<and>
           (\<forall>i<length (completion_choices c).
              candidates result ! i =
                \<lparr>candidate_content =
                   \<lparr>content_role = js ''model'',
                    content_parts =
                      [\<lparr>text_of = JStr (message_content (choice_message (completion_choices c ! i)))\<rparr>]\<rparr>,
                 finishReason =
                   JStr (toUpperCase P (choice_finish_reason (completion_choices c ! i))),
                 index = JNum (choice_index (completion_choices c ! i))\<rparr>) \<and>
           usageMetadata result =
             Some \<lparr>promptTokenCount = JNum (prompt_tokens (usage c)),
                   candidatesTokenCount = JNum (completion_tokens (usage c)),
                   totalTokenCount = JNum (total_tokens (usage c))\<rparr>"
proof -
  obtain vs u where vs: "get_prop (js ''choices'') data = Inr (JArr vs)"
      and all: "list_all2 is_completion_choice vs (completion_choices c)"
      and u: "get_prop (js ''usage'') data = Inr u"
      and pt: "get_prop (js ''prompt_tokens'') u = Inr (JNum (prompt_tokens (usage c)))"
      and ct: "get_prop (js ''completion_tokens'') u = Inr (JNum (completion_tokens (usage c)))"
      and tt: "get_prop (js ''total_tokens'') u = Inr (JNum (total_tokens (usage c)))"
    using shape by (auto simp: is_completion_def split: sum.splits jsval.splits)
  let ?result = "\<lparr>candidates = map (\<lambda>ch.
           \<lparr>candidate_content =
              \<lparr>content_role = js ''model'',
               content_parts = [\<lparr>text_of = JStr (message_content (choice_message ch))\<rparr>]\<rparr>,
            finishReason = JStr (toUpperCase P (choice_finish_reason ch)),
            index = JNum (choice_index ch)\<rparr>) (completion_choices c),
                  usageMetadata =
                    Some \<lparr>promptTokenCount = JNum (prompt_tokens (usage c)),
                          candidatesTokenCount = JNum (completion_tokens (usage c)),
                          totalTokenCount = JNum (total_tokens (usage c))\<rparr>\<rparr>"
  have "completion_to_response P data = Inr ?result"
    using vs u pt ct tt mapE_choices [OF all, of P]
    by (simp add: completion_to_response_def bindE_def)
  then have "fst (generateContent P backend self w request) = Inr ?result"
    using reply success parsed
    by (simp add: generateContent_def fetch_def ok_def Let_def response_json_def bindE_def)
  then show ?thesis
    by simp
qed

text \<open>Two choices, \<open>stop\<close> and \<open>length\<close>: two candidates, \<open>STOP\<close> and \<open>LENGTH\<close>.\<close>

theorem generateContent_maps_completion_witness:
  "fst (generateContent example_platform
          (canned [example_response 200 ''OK''
             ''{\"choices\":[{\"index\":0,\"message\":{\"role\":\"assistant\",\"content\":\"A\"},\"finish_reason\":\"stop\"},{\"index\":1,\"message\":{\"role\":\"assistant\",\"content\":\"B\"},\"finish_reason\":\"length\"}],\"usage\":{\"prompt_tokens\":3,\"completion_tokens\":2,\"total_tokens\":5}}''])
          constructor_default \<lparr>calls = [], server = 0\<rparr> (example_request ''llama3'' [''hi'']))
   = Inr \<lparr>candidates =
            [\<lparr>candidate_content = \<lparr>content_role = js ''model'', content_parts = [\<lparr>text_of = JStr (js ''A'')\<rparr>]\<rparr>,
              finishReason = JStr (js ''STOP''), index = JNum 0\<rparr>,
             \<lparr>candidate_content = \<lparr>content_role = js ''model'', content_parts = [\<lparr>text_of = JStr (js ''B'')\<rparr>]\<rparr>,
              finishReason = JStr (js ''LENGTH''), index = JNum 1\<rparr>],
          usageMetadata = Some \<lparr>promptTokenCount = JNum 3, candidatesTokenCount = JNum 2,
                                totalTokenCount = JNum 5\<rparr>\<rparr>"
proof -
  let ?r = "example_response 200 ''OK''
             ''{\"choices\":[{\"index\":0,\"message\":{\"role\":\"assistant\",\"content\":\"A\"},\"finish_reason\":\"stop\"},{\"index\":1,\"message\":{\"role\":\"assistant\",\"content\":\"B\"},\"finish_reason\":\"length\"}],\"usage\":{\"prompt_tokens\":3,\"completion_tokens\":2,\"total_tokens\":5}}''"
  let ?data = "JObj [(js ''choices'',
                        JArr [example_choice 0 ''A'' ''stop'', example_choice 1 ''B'' ''length'']),
                       (js ''usage'',
                        JObj [(js ''prompt_tokens'', JNum 3), (js ''completion_tokens'', JNum 2),
                              (js ''total_tokens'', JNum 5)])] :: int jsval"
  let ?c = "\<lparr>completion_choices =
               [\<lparr>choice_index = 0,
                 choice_message = \<lparr>message_role = js ''assistant'', message_content = js ''A''\<rparr>,
                 choice_finish_reason = js ''stop''\<rparr>,
                \<lparr>choice_index = 1,
                 choice_message = \<lparr>message_role = js ''assistant'', message_content = js ''B''\<rparr>,
                 choice_finish_reason = js ''length''\<rparr>],
             usage = \<lparr>prompt_tokens = 3, completion_tokens = 2, total_tokens = 5\<rparr>\<rparr> :: int completion"
  let ?w = "\<lparr>calls = [], server = 0 :: nat\<rparr>"
  have 1: "canned [?r] (server ?w) req = (Inr ?r, Suc 0)" for req
    by (simp add: canned_def)
  have 2: "200 \<le> status ?r \<and> status ?r \<le> 299"
    by (simp add: example_response_def)
  have 3: "json_parse example_platform (body_text ?r) = Some ?data"
    by (simp add: example_response_def example_platform_def example_parse_def js_def)
  have 4: "is_completion ?data ?c"
    by (simp add: is_completion_def is_completion_choice_def example_choice_def js_def)
  obtain result where
    res: "fst (generateContent example_platform (canned [?r]) constructor_default ?w
                 (example_request ''llama3'' [''hi''])) = Inr result"
    and len: "length (candidates result) = length (completion_choices ?c)"
    and nth: "\<forall>i<length (completion_choices ?c).
              candidates result ! i =
                \<lparr>candidate_content =
                   \<lparr>content_role = js ''model'',
                    content_parts =
                      [\<lparr>text_of = JStr (message_content (choice_message (completion_choices ?c ! i)))\<rparr>]\<rparr>,
                 finishReason =
                   JStr (toUpperCase example_platform (choice_finish_reason (completion_choices ?c ! i))),
                 index = JNum (choice_index (completion_choices ?c ! i))\<rparr>"
    and us: "usageMetadata result =
             Some \<lparr>promptTokenCount = JNum (prompt_tokens (usage ?c)),
                   candidatesTokenCount = JNum (completion_tokens (usage ?c)),
                   totalTokenCount = JNum (total_tokens (usage ?c))\<rparr>"
    using generateContent_maps_completion
      [where backend = "canned [?r]" and w = ?w and self = constructor_default
         and request = "example_request ''llama3'' [''hi'']" and r = ?r and s = "Suc 0"
         and P = example_platform and data = ?data and c = ?c, OF 1 2 3 4]
    by blast
  from nth have n0: "candidates result ! 0 =
      \<lparr>candidate_content = \<lparr>content_role = js ''model'', content_parts = [\<lparr>text_of = JStr (js ''A'')\<rparr>]\<rparr>,
       finishReason = JStr (js ''STOP''), index = JNum 0\<rparr>"
    by (simp add: toUpperCase_def ascii_upper_def js_def)
  from nth have n1: "candidates result ! 1 =
      \<lparr>candidate_content = \<lparr>content_role = js ''model'', content_parts = [\<lparr>text_of = JStr (js ''B'')\<rparr>]\<rparr>,
       finishReason = JStr (js ''LENGTH''), index = JNum 1\<rparr>"
    by (simp add: toUpperCase_def ascii_upper_def js_def)
  from len obtain a b where ab: "candidates result = [a, b]"
    by (cases "candidates result"; cases "tl (candidates result)") auto
  with n0 n1 have "candidates result =
     [\<lparr>candidate_content = \<lparr>content_role = js ''model'', content_parts = [\<lparr>text_of = JStr (js ''A'')\<rparr>]\<rparr>,
       finishReason = JStr (js ''STOP''), index = JNum 0\<rparr>,
      \<lparr>candidate_content = \<lparr>content_role = js ''model'', content_parts = [\<lparr>text_of = JStr (js ''B'')\<rparr>]\<rparr>,
       finishReason = JStr (js ''LENGTH''), index = JNum 1\<rparr>]"
    by simp
  with us res show ?thesis
    by (cases result) simp
qed

section \<open>The embedding loop\<close>

lemma part_texts_filter:
  "part_texts ps =
     List.map_filter
       (\<lambda>p. case part_text p of None \<Rightarrow> None | Some t \<Rightarrow> if t = [] then None else Some t) ps"
  by (induction ps) (auto simp: List.map_filter_simps split: option.splits)

lemma flatten_texts_concat:
  "flatten_texts cs =
     concat (map (\<lambda>c. List.map_filter
                         (\<lambda>p. case part_text p of
                                None \<Rightarrow> None
                              | Some t \<Rightarrow> if t = [] then None else Some t)
                         (case parts c of None \<Rightarrow> [] | Some ps \<Rightarrow> ps)) cs)"
  by (induction cs) (auto simp: part_texts_filter List.map_filter_simps split: option.splits)

lemma embedding_of_length: "embedding_of P d = Inr new \<Longrightarrow> length new \<le> 1"
  by (auto simp: embedding_of_def bindE_def split: sum.splits if_splits)

lemma reply_embeddings_length: "length (reply_embeddings P reply) \<le> 1"
proof (cases reply)
  case (Inl e)
  then show ?thesis by (simp add: reply_embeddings_def)
next
  case (Inr r)
  show ?thesis
  proof (cases "bindE (response_json P r) (embedding_of P)")
    case (Inl e)
    with Inr show ?thesis by (simp add: reply_embeddings_def)
  next
    case new: (Inr new)
    then obtain d where "embedding_of P d = Inr new"
      by (auto simp: bindE_def split: sum.splits)
    then have "length new \<le> 1" by (rule embedding_of_length)
    with Inr new show ?thesis by (simp add: reply_embeddings_def)
  qed
qed

lemma length_concat_le:
  "(\<And>x. length (f x) \<le> 1) \<Longrightarrow> length (concat (map f xs)) \<le> length xs"
proof (induction xs)
  case Nil
  show ?case by simp
next
  case (Cons x xs)
  then have "length (f x) \<le> 1" and "length (concat (map f xs)) \<le> length xs" by simp_all
  then show ?case by simp
qed

lemma length_replies: "length (replies backend s reqs) = length reqs"
  by (induction reqs arbitrary: s) (auto split: prod.splits)

lemma embed_loop_success:
  "embed_loop P backend self m w texts embs = (Inr out, w') \<Longrightarrow>
   calls w' = calls w @ map (embed_request self m) texts \<and>
   out = embs @ concat (map (reply_embeddings P)
                         (replies backend (server w) (map (embed_request self m) texts)))"
proof (induction texts arbitrary: w embs)
  case Nil
  then show ?case by simp
next
  case (Cons input rest)
  obtain reply s1 where b: "backend (server w) (embed_request self m input) = (reply, s1)"
    by (cases "backend (server w) (embed_request self m input)")
  let ?w1 = "\<lparr>calls = calls w @ [embed_request self m input], server = s1\<rparr>"
  have f: "fetch backend w (embed_request self m input) = (reply, ?w1)"
    using b by (simp add: fetch_def)
  from Cons.prems f obtain r new where r: "reply = Inr r" and okr: "ok r"
    and new: "bindE (response_json P r) (embedding_of P) = Inr new"
    and rest: "embed_loop P backend self m ?w1 rest (embs @ new) = (Inr out, w')"
    by (auto split: sum.splits if_splits)
  have "reply_embeddings P reply = new"
    using r new by (simp add: reply_embeddings_def)
  with Cons.IH [OF rest] b show ?case by simp
qed

text \<open>Whatever the outcome, the calls sent are those for a prefix of the texts, in order.\<close>

lemma embed_loop_calls_prefix:
  "embed_loop P backend self m w texts embs = (res, w') \<Longrightarrow>
   \<exists>k\<le>length texts. calls w' = calls w @ map (embed_request self m) (take k texts)"
proof (induction texts arbitrary: w embs)
  case Nil
  then show ?case by simp
next
  case (Cons input rest)
  obtain reply s1 where b: "backend (server w) (embed_request self m input) = (reply, s1)"
    by (cases "backend (server w) (embed_request self m input)")
  let ?w1 = "\<lparr>calls = calls w @ [embed_request self m input], server = s1\<rparr>"
  have f: "fetch backend w (embed_request self m input) = (reply, ?w1)"
    using b by (simp add: fetch_def)
  have one: "calls ?w1 = calls w @ map (embed_request self m) (take 1 (input # rest))"
    by simp
  show ?case
  proof (cases "\<exists>acc. embed_loop P backend self m ?w1 rest acc = (res, w')")
    case True
    then obtain acc where "embed_loop P backend self m ?w1 rest acc = (res, w')" ..
    from Cons.IH [OF this] obtain k where k: "k \<le> length rest"
      and c: "calls w' = calls ?w1 @ map (embed_request self m) (take k rest)" by blast
    from c have "calls w' = calls w @ map (embed_request self m) (take (Suc k) (input # rest))"
      by simp
    with k show ?thesis by (intro exI [of _ "Suc k"]) simp
  next
    case False
    with Cons.prems f have "w' = ?w1"
      by (auto split: sum.splits if_splits)
    with one show ?thesis by (intro exI [of _ 1]) simp
  qed
qed

text \<open>
  C7. The texts \<open>embedContent\<close> extracts are the non-empty texts of the parts of all
  turns, in turn order and then part order; parts without text (and turns without
  parts) add nothing. The requests it sends are one per text, in that order, up to the
  first call that fails, and all of them when it resolves. When it resolves, the
  embeddings are what the replies add, in that order, each reply adding at most one, so
  there are at most as many as texts. A reply whose \<open>data\<close> is absent or the empty array
  adds nothing; one whose \<open>data\<close> is a non-empty array adds the \<open>embedding\<close> of its first
  element.
\<close>

theorem embedContent_texts_calls_embeddings:
  assumes run: "embedContent P backend self w request = (outcome, w')"
      and contents: "contents = normalizeContents (req_contents request)"
      and texts: "texts = flatten_texts contents"
      and m: "m = (if startsWith (req_model request) (js ''gemini'')
                   then model self else req_model request)"
      and requests: "requests = map (\<lambda>t. \<lparr>url = baseUrl self @ js ''/embeddings'',
                                              body = EmbedBody m t\<rparr>) texts"
  shows "texts = concat (map (\<lambda>c. List.map_filter
                                     (\<lambda>p. case part_text p of
                                            None \<Rightarrow> None
                                          | Some t \<Rightarrow> if t = [] then None else Some t)
                                     (case parts c of None \<Rightarrow> [] | Some ps \<Rightarrow> ps)) contents) \<and>
         (\<exists>k\<le>length texts. calls w' = calls w @ take k requests) \<and>
         (outcome = Inr result \<longrightarrow>
            calls w' = calls w @ requests \<and>
            embeddings result =
              concat (map (reply_embeddings P) (replies backend (server w) requests)) \<and>
            length (embeddings result) \<le> length texts) \<and>
         (get_prop (js ''data'') d = Inr JUndefined \<or> get_prop (js ''data'') d = Inr (JArr [])
            \<longrightarrow> embedding_of P d = Inr []) \<and>
         (get_prop (js ''data'') d = Inr (JArr (first # others)) \<and>
          get_prop (js ''embedding'') first = Inr v
            \<longrightarrow> embedding_of P d = Inr [\<lparr>embedding_values = v\<rparr>])"
proof -
  obtain res where loop: "embed_loop P backend self m w texts [] = (res, w')"
    and out: "outcome = (case res of Inl e \<Rightarrow> Inl e | Inr embs \<Rightarrow> Inr \<lparr>embeddings = embs\<rparr>)"
    using run unfolding contents texts m
    by (auto simp: embedContent_def Let_def split: prod.splits sum.splits)
  have t: "texts = concat (map (\<lambda>c. List.map_filter
                                     (\<lambda>p. case part_text p of
                                            None \<Rightarrow> None
                                          | Some t \<Rightarrow> if t = [] then None else Some t)
                                     (case parts c of None \<Rightarrow> [] | Some ps \<Rightarrow> ps)) contents)"
    unfolding texts by (rule flatten_texts_concat)
  have p: "\<exists>k\<le>length texts. calls w' = calls w @ take k requests"
    using embed_loop_calls_prefix [OF loop] unfolding requests by (simp add: take_map)
  have s: "outcome = Inr result \<longrightarrow>
            calls w' = calls w @ requests \<and>
            embeddings result =
              concat (map (reply_embeddings P) (replies backend (server w) requests)) \<and>
            length (embeddings result) \<le> length texts"
  proof
    assume "outcome = Inr result"
    with out obtain embs where res: "res = Inr embs" and r: "result = \<lparr>embeddings = embs\<rparr>"
      by (cases res) auto
    from embed_loop_success [OF loop [unfolded res]]
    have c: "calls w' = calls w @ requests"
      and e: "embs = concat (map (reply_embeddings P) (replies backend (server w) requests))"
      unfolding requests by simp_all
    have "length embs \<le> length (replies backend (server w) requests)"
      unfolding e by (rule length_concat_le) (rule reply_embeddings_length)
    then have "length embs \<le> length texts"
      by (simp add: length_replies requests)
    with c e r show "calls w' = calls w @ requests \<and>
            embeddings result =
              concat (map (reply_embeddings P) (replies backend (server w) requests)) \<and>
            length (embeddings result) \<le> length texts"
      by simp
  qed
  have d1: "get_prop (js ''data'') d = Inr JUndefined \<or> get_prop (js ''data'') d = Inr (JArr [])
               \<longrightarrow> embedding_of P d = Inr []"
    by (auto simp: embedding_of_def bindE_def)
  have d2: "get_prop (js ''data'') d = Inr (JArr (first # others)) \<and>
             get_prop (js ''embedding'') first = Inr v
               \<longrightarrow> embedding_of P d = Inr [\<lparr>embedding_values = v\<rparr>]"
    by (auto simp: embedding_of_def bindE_def)
  from t p s d1 d2 show ?thesis by blast
qed

text \<open>
  Three texts \<open>a\<close>, \<open>b\<close>, \<open>c\<close> among parts with empty or no text; the second reply has
  no \<open>data\<close>: three requests, two embeddings.
\<close>

theorem embedContent_texts_calls_embeddings_witness:
  "embedContent example_platform
     (canned [example_response 200 ''OK'' ''{\"data\":[{\"embedding\":[1,2]}]}'',
              example_response 200 ''OK'' ''{}'',
              example_response 200 ''OK'' ''{\"data\":[{\"embedding\":[3,4]}]}''])
     constructor_default \<lparr>calls = [], server = 0\<rparr>
     \<lparr>req_model = js ''nomic-embed-text'',
      req_contents = ContentArray
        [\<lparr>role = Some (js ''user''),
          parts = Some [\<lparr>part_text = Some (js ''a'')\<rparr>, \<lparr>part_text = Some []\<rparr>,
                        \<lparr>part_text = None\<rparr>, \<lparr>part_text = Some (js ''b'')\<rparr>]\<rparr>,
         \<lparr>role = None, parts = None\<rparr>,
         \<lparr>role = Some (js ''model''), parts = Some [\<lparr>part_text = Some (js ''c'')\<rparr>]\<rparr>]\<rparr>
   = (Inr \<lparr>embeddings = [\<lparr>embedding_values = JArr [JNum 1, JNum 2]\<rparr>,
                          \<lparr>embedding_values = JArr [JNum 3, JNum 4]\<rparr>]\<rparr>,
      \<lparr>calls = [\<lparr>url = js ''http://localhost:11434/v1/embeddings'',
                 body = EmbedBody (js ''nomic-embed-text'') (js ''a'')\<rparr>,
                \<lparr>url = js ''http://localhost:11434/v1/embeddings'',
                 body = EmbedBody (js ''nomic-embed-text'') (js ''b'')\<rparr>,
                \<lparr>url = js ''http://localhost:11434/v1/embeddings'',
                 body = EmbedBody (js ''nomic-embed-text'') (js ''c'')\<rparr>],
       server = 3\<rparr>) \<and>
   length [\<lparr>embedding_values = JArr [JNum 1, JNum (2 :: int)]\<rparr>,
           \<lparr>embedding_values = JArr [JNum 3, JNum 4]\<rparr>] \<le> length [js ''a'', js ''b'', js ''c'']"
proof -
  let ?backend = "canned [example_response 200 ''OK'' ''{\"data\":[{\"embedding\":[1,2]}]}'',
              example_response 200 ''OK'' ''{}'',
              example_response 200 ''OK'' ''{\"data\":[{\"embedding\":[3,4]}]}'']"
  let ?request = "\<lparr>req_model = js ''nomic-embed-text'',
      req_contents = ContentArray
        [\<lparr>role = Some (js ''user''),
          parts = Some [\<lparr>part_text = Some (js ''a'')\<rparr>, \<lparr>part_text = Some []\<rparr>,
                        \<lparr>part_text = None\<rparr>, \<lparr>part_text = Some (js ''b'')\<rparr>]\<rparr>,
         \<lparr>role = None, parts = None\<rparr>,
         \<lparr>role = Some (js ''model''), parts = Some [\<lparr>part_text = Some (js ''c'')\<rparr>]\<rparr>]\<rparr>"
  let ?result = "\<lparr>embeddings = [\<lparr>embedding_values = JArr [JNum 1, JNum (2 :: int)]\<rparr>,
                          \<lparr>embedding_values = JArr [JNum 3, JNum 4]\<rparr>]\<rparr>"
  let ?w' = "\<lparr>calls = [\<lparr>url = js ''http://localhost:11434/v1/embeddings'',
                 body = EmbedBody (js ''nomic-embed-text'') (js ''a'')\<rparr>,
                \<lparr>url = js ''http://localhost:11434/v1/embeddings'',
                 body = EmbedBody (js ''nomic-embed-text'') (js ''b'')\<rparr>,
                \<lparr>url = js ''http://localhost:11434/v1/embeddings'',
                 body = EmbedBody (js ''nomic-embed-text'') (js ''c'')\<rparr>],
       server = 3 :: nat\<rparr>"
  have run: "embedContent example_platform ?backend constructor_default
               \<lparr>calls = [], server = 0\<rparr> ?request = (Inr ?result, ?w')"
    by (simp add: embedContent_def fetch_def canned_def ok_def response_json_def
          embedding_of_def bindE_def example_response_def example_platform_def
          example_parse_def constructor_default_def startsWith_def js_def Let_def)
  have texts: "flatten_texts (normalizeContents (req_contents ?request)) = [js ''a'', js ''b'', js ''c'']"
    by (simp add: js_def)
  have "length (embeddings ?result) \<le>
          length (flatten_texts (normalizeContents (req_contents ?request)))"
    using embedContent_texts_calls_embeddings
      [OF run refl refl refl refl, where result = ?result]
    by blast
  then have len: "length [\<lparr>embedding_values = JArr [JNum 1, JNum (2 :: int)]\<rparr>,
           \<lparr>embedding_values = JArr [JNum 3, JNum 4]\<rparr>] \<le> length [js ''a'', js ''b'', js ''c'']"
    by (simp only: texts embed_response.simps)
  from run len show ?thesis by (rule conjI)
qed

text \<open>
  C6. With three texts, a first reply of status 200 and a second of status 500, status
  text \<open>Internal Server Error\<close> and body \<open>overloaded\<close>: \<open>embedContent\<close> rejects after two
  requests, with no partial result, and the message of its error is
  \<open>Ollama Embedding Error: Internal Server Error\<close>. It holds neither the status code nor the
  body, which the error of \<open>generateContent\<close> for the same reply does hold.
\<close>

theorem embedContent_http_error_has_no_status_or_body:
  "embedContent example_platform
     (canned [example_response 200 ''OK'' ''{\"data\":[{\"embedding\":[1,2]}]}'',
              example_response 500 ''Internal Server Error'' ''overloaded''])
     constructor_default \<lparr>calls = [], server = 0\<rparr>
     (example_request ''nomic-embed-text'' [''a'', ''b'', ''c''])
   = (Inl (Error (js ''Ollama Embedding Error: Internal Server Error'')),
      \<lparr>calls = [\<lparr>url = js ''http://localhost:11434/v1/embeddings'',
                 body = EmbedBody (js ''nomic-embed-text'') (js ''a'')\<rparr>,
                \<lparr>url = js ''http://localhost:11434/v1/embeddings'',
                 body = EmbedBody (js ''nomic-embed-text'') (js ''b'')\<rparr>],
       server = 2\<rparr>) \<and>
   fst (generateContent example_platform
          (canned [example_response 500 ''Internal Server Error'' ''overloaded''])
          constructor_default \<lparr>calls = [], server = 0\<rparr>
          (example_request ''llama3'' [''a'', ''b'', ''c'']))
   = (Inl (Error (js ''Ollama API error: 500 - overloaded'')) :: js_error + int response)"
proof -
  have n: "number_to_string 500 = js ''500''"
    by (simp add: number_to_string.simps js_def)
  show ?thesis
    by (simp add: embedContent_def generateContent_def fetch_def canned_def ok_def
          response_json_def embedding_of_def bindE_def example_response_def
          example_request_def example_platform_def example_parse_def
          constructor_default_def startsWith_def toOpenAIMessages_def toOpenAIRole_def
          n js_def Let_def)
qed

end
